theory Spec2Isabelle
  imports Complex_Main "HOL-Library.Log_Nat" "HOL-Library.Multiset" "HOL-Library.Sublist"
begin

text \<open>
  A model of \<^verbatim>\<open>server.js\<close>, the bill record service: the Bill schema and the four
  request handlers (create, list, search, delete) over one collection. The collection
  is a list of bills that the handlers take and return; what a handler catches is a
  value of a sum type. The definitions come first, the properties after them.
\<close>

section \<open>JavaScript Numbers\<close>

text \<open>
  The handlers of \<^verbatim>\<open>server.js\<close> compute with JavaScript Numbers: IEEE 754 binary64
  values. A Number is modelled as NaN, one of the two infinities, or the rational it
  denotes. The two zeros are identified: the handlers only add, multiply and compare,
  and none of these tells \<open>-0\<close> from \<open>+0\<close>.
\<close>

datatype jsnum = NaN | PosInf | NegInf | Fin rat

definition pow2 :: "int \<Rightarrow> rat" where
  "pow2 e = (if 0 \<le> e then 2 ^ nat e else 1 / 2 ^ nat (- e))"

definition pow10 :: "int \<Rightarrow> rat" where
  "pow10 e = (if 0 \<le> e then 10 ^ nat e else 1 / 10 ^ nat (- e))"

text \<open>\<open>ilog2 a\<close> is the integer part of the binary logarithm of a positive rational.\<close>

definition ilog2 :: "rat \<Rightarrow> int" where
  "ilog2 a = (case quotient_of a of (p, q) \<Rightarrow>
     let d = int (floorlog 2 (nat p)) - int (floorlog 2 (nat q))
     in if pow2 d \<le> a then d else d - 1)"

definition round_half_even :: "rat \<Rightarrow> int" where
  "round_half_even q = (let f = \<lfloor>q\<rfloor>; d = q - of_int f
     in if d < 1 / 2 then f else if 1 / 2 < d then f + 1 else if even f then f else f + 1)"

text \<open>
  \<open>fl x\<close> is the Number nearest to the rational \<open>x\<close> (round to nearest, ties to even):
  53 significant bits, least exponent \<open>-1074\<close>, overflow to an infinity from \<open>2^1024\<close>.
\<close>

definition fl :: "rat \<Rightarrow> jsnum" where
  "fl x = (if x = 0 then Fin 0 else
     let a = \<bar>x\<bar>;
         e = max (ilog2 a - 52) (- 1074);
         v = of_int (round_half_even (a / pow2 e)) * pow2 e
     in if pow2 1024 \<le> v then (if 0 < x then PosInf else NegInf)
        else Fin (if 0 < x then v else - v))"

definition isNaN :: "jsnum \<Rightarrow> bool" where
  "isNaN n = (n = NaN)"

fun js_neg :: "jsnum \<Rightarrow> jsnum" where
  "js_neg NaN = NaN"
| "js_neg PosInf = NegInf"
| "js_neg NegInf = PosInf"
| "js_neg (Fin a) = Fin (- a)"

text \<open>The operator \<^verbatim>\<open>+\<close> on two Numbers.\<close>

fun js_add :: "jsnum \<Rightarrow> jsnum \<Rightarrow> jsnum" where
  "js_add NaN y = NaN"
| "js_add x NaN = NaN"
| "js_add PosInf NegInf = NaN"
| "js_add NegInf PosInf = NaN"
| "js_add PosInf y = PosInf"
| "js_add x PosInf = PosInf"
| "js_add NegInf y = NegInf"
| "js_add x NegInf = NegInf"
| "js_add (Fin a) (Fin b) = fl (a + b)"

text \<open>The operator \<^verbatim>\<open>*\<close> on two Numbers.\<close>

fun js_sign :: "jsnum \<Rightarrow> int" where
  "js_sign NaN = 0"
| "js_sign PosInf = 1"
| "js_sign NegInf = - 1"
| "js_sign (Fin a) = (if a < 0 then - 1 else if a = 0 then 0 else 1)"

fun js_mul :: "jsnum \<Rightarrow> jsnum \<Rightarrow> jsnum" where
  "js_mul NaN y = NaN"
| "js_mul x NaN = NaN"
| "js_mul (Fin a) (Fin b) = fl (a * b)"
| "js_mul x y =
     (if js_sign x = 0 \<or> js_sign y = 0 then NaN
      else if js_sign x = js_sign y then PosInf else NegInf)"

text \<open>The comparisons \<^verbatim>\<open><\<close> and \<^verbatim>\<open>>=\<close>: false whenever an operand is NaN.\<close>

fun js_less :: "jsnum \<Rightarrow> jsnum \<Rightarrow> bool" where
  "js_less NaN y = False"
| "js_less x NaN = False"
| "js_less PosInf y = False"
| "js_less x PosInf = True"
| "js_less x NegInf = False"
| "js_less NegInf y = True"
| "js_less (Fin a) (Fin b) = (a < b)"

definition js_ge :: "jsnum \<Rightarrow> jsnum \<Rightarrow> bool" where
  "js_ge x y = (x \<noteq> NaN \<and> y \<noteq> NaN \<and> \<not> js_less x y)"

definition js_le :: "jsnum \<Rightarrow> jsnum \<Rightarrow> bool" where
  "js_le x y = js_ge y x"

section \<open>The builtin \<^verbatim>\<open>parseFloat\<close> on strings\<close>

text \<open>
  Strings are lists of characters with codes below 256. \<^verbatim>\<open>parseFloat\<close> skips leading
  white space and reads the longest prefix that is a decimal literal
  (\<^verbatim>\<open>[+-]? (Infinity | digits [. digits] [exponent] | . digits [exponent])\<close>);
  the rest of the string is ignored, and the result is NaN when there is no such prefix.
\<close>

definition is_digit :: "char \<Rightarrow> bool" where
  "is_digit c = (c \<in> set ''0123456789'')"

definition is_space :: "char \<Rightarrow> bool" where
  "is_space c = (of_char c \<in> {9, 10, 11, 12, 13, 32, 160 :: nat})"

definition digits_val :: "string \<Rightarrow> nat" where
  "digits_val ds = foldl (\<lambda>n c. 10 * n + (of_char c - 48)) 0 ds"

definition scan_sign :: "string \<Rightarrow> bool \<times> string" where
  "scan_sign s = (case s of
       [] \<Rightarrow> (False, s)
     | c # r \<Rightarrow> if c = CHR ''-'' then (True, r) else if c = CHR ''+'' then (False, r) else (False, s))"

definition scan_exponent :: "string \<Rightarrow> (int \<times> string) option" where
  "scan_exponent s = (case s of
       [] \<Rightarrow> None
     | c # t \<Rightarrow>
         if c = CHR ''e'' \<or> c = CHR ''E'' then
           (case scan_sign t of (neg, u) \<Rightarrow>
              let ds = takeWhile is_digit u
              in if ds = [] then None
                 else Some (if neg then - int (digits_val ds) else int (digits_val ds),
                            dropWhile is_digit u))
         else None)"

definition scan_fraction :: "string \<Rightarrow> string \<times> string" where
  "scan_fraction s = (case s of
       [] \<Rightarrow> ([], s)
     | c # t \<Rightarrow> if c = CHR ''.'' then (takeWhile is_digit t, dropWhile is_digit t) else ([], s))"

definition scan_unsigned :: "string \<Rightarrow> (jsnum \<times> string) option" where
  "scan_unsigned s =
     (if take 8 s = ''Infinity'' then Some (PosInf, drop 8 s)
      else case scan_fraction (dropWhile is_digit s) of (fp, r2) \<Rightarrow>
        let ip = takeWhile is_digit s
        in if ip = [] \<and> fp = [] then None
           else (case scan_exponent r2 of
                   None \<Rightarrow>
                     Some (fl (of_nat (digits_val (ip @ fp)) * pow10 (- int (length fp))), r2)
                 | Some (ex, r3) \<Rightarrow>
                     Some (fl (of_nat (digits_val (ip @ fp)) * pow10 (ex - int (length fp))), r3)))"

definition parse_float :: "string \<Rightarrow> jsnum" where
  "parse_float s = (case scan_sign (dropWhile is_space s) of (neg, u) \<Rightarrow>
     (case scan_unsigned u of
        None \<Rightarrow> NaN
      | Some (v, rest) \<Rightarrow> if neg then js_neg v else v))"

section \<open>Request values and the conversions applied to them\<close>

text \<open>
  \<^verbatim>\<open>express.json()\<close> hands the handler a parsed JSON object; a field that is absent
  reads as \<^verbatim>\<open>undefined\<close>. A request whose body does not parse never reaches the
  handler and is outside the model.
\<close>

datatype jsval =
    JUndefined
  | JNull
  | JBool bool
  | JNum jsnum
  | JStr string
  | JArr "jsval list"
  | JObj "(string \<times> jsval) list"

type_synonym body = "string \<rightharpoonup> jsval"

definition get_field :: "body \<Rightarrow> string \<Rightarrow> jsval" where
  "get_field b k = (case b k of None \<Rightarrow> JUndefined | Some v \<Rightarrow> v)"

type_synonym objectid = string

text \<open>What a handler's \<^verbatim>\<open>try\<close> block can throw.\<close>

datatype js_error =
    TypeError
  | ValidationError "string list"
  | DuplicateKey objectid
  | CastError string
  | RegexError string

text \<open>
  The parts of the platform that the repository does not contain and that are not
  modelled here are parameters of the model:
  \<^item> \<open>numToString\<close>: the text of a Number (\<^verbatim>\<open>Number::toString\<close>);
  \<^item> \<open>dateParse\<close>: \<^verbatim>\<open>Date.parse\<close> on a string, the time value in milliseconds, or
    \<open>None\<close> for an invalid date;
  \<^item> \<open>castObjectId\<close>: Mongoose's cast of a string to the type of \<^verbatim>\<open>_id\<close>, \<open>None\<close>
    when the cast fails;
  \<^item> \<open>pcre\<close>: the database's regular expression engine on the patterns outside the
    fragment modelled below: pattern, caseless flag, and the resulting matcher, or
    \<open>None\<close> when the pattern does not compile.
\<close>

record platform =
  numToString :: "jsnum \<Rightarrow> string"
  dateParse :: "string \<Rightarrow> int option"
  castObjectId :: "string \<Rightarrow> objectid option"
  pcre :: "string \<Rightarrow> bool \<Rightarrow> (string \<Rightarrow> bool) option"

text \<open>
  \<^verbatim>\<open>String(v)\<close>. An array joins the texts of its elements with commas, \<^verbatim>\<open>null\<close> and
  \<^verbatim>\<open>undefined\<close> elements giving the empty text. A parsed JSON object converts to
  \<^verbatim>\<open>[object Object]\<close>, unless it has a key \<^verbatim>\<open>toString\<close> of its own: that value is
  not callable and the conversion throws a TypeError.
\<close>

fun js_String :: "platform \<Rightarrow> jsval \<Rightarrow> js_error + string"
  and join_elems :: "platform \<Rightarrow> jsval list \<Rightarrow> js_error + string" where
  "js_String P JUndefined = Inr ''undefined''"
| "js_String P JNull = Inr ''null''"
| "js_String P (JBool b) = Inr (if b then ''true'' else ''false'')"
| "js_String P (JNum n) = Inr (numToString P n)"
| "js_String P (JStr s) = Inr s"
| "js_String P (JArr vs) = join_elems P vs"
| "js_String P (JObj kvs) =
     (if ''toString'' \<in> set (map fst kvs) then Inl TypeError else Inr ''[object Object]'')"
| "join_elems P [] = Inr []"
| "join_elems P (v # vs) =
     (case (if v = JUndefined \<or> v = JNull then Inr [] else js_String P v) of
        Inl e \<Rightarrow> Inl e
      | Inr s \<Rightarrow>
          if vs = [] then Inr s
          else (case join_elems P vs of Inl e \<Rightarrow> Inl e | Inr r \<Rightarrow> Inr (s @ '','' @ r)))"

text \<open>
  \<^verbatim>\<open>parseFloat(v)\<close> reads the text of \<open>v\<close>. The text of a Number reads back as that
  Number, so a Number is returned as it is.
\<close>

definition parseFloat :: "platform \<Rightarrow> jsval \<Rightarrow> js_error + jsnum" where
  "parseFloat P v = (case v of
       JNum n \<Rightarrow> Inr n
     | _ \<Rightarrow> (case js_String P v of Inl e \<Rightarrow> Inl e | Inr s \<Rightarrow> Inr (parse_float s)))"

text \<open>
  \<^verbatim>\<open>new Date(v)\<close>: a time value in milliseconds, or \<open>None\<close> for an invalid date.
  A string is parsed; any other primitive is converted to a Number and clipped to the
  range of time values.
\<close>

definition time_clip :: "jsnum \<Rightarrow> int option" where
  "time_clip n = (case n of
       Fin q \<Rightarrow>
         if \<bar>q\<bar> \<le> 8640000000000000 then Some (if 0 \<le> q then \<lfloor>q\<rfloor> else \<lceil>q\<rceil>) else None
     | _ \<Rightarrow> None)"

definition new_Date :: "platform \<Rightarrow> jsval \<Rightarrow> js_error + int option" where
  "new_Date P v = (case v of
       JUndefined \<Rightarrow> Inr None
     | JNull \<Rightarrow> Inr (Some 0)
     | JBool b \<Rightarrow> Inr (Some (if b then 1 else 0))
     | JNum n \<Rightarrow> Inr (time_clip n)
     | JStr s \<Rightarrow> Inr (dateParse P s)
     | _ \<Rightarrow> (case js_String P v of Inl e \<Rightarrow> Inl e | Inr s \<Rightarrow> Inr (dateParse P s)))"

text \<open>\<^verbatim>\<open>!date\<close>: a Date object is truthy, valid or not, so its negation is false.\<close>

definition not_Date :: "int option \<Rightarrow> bool" where
  "not_Date d = False"

section \<open>The Bill model\<close>

text \<open>A stored bill: the fields of the schema and the identifier \<^verbatim>\<open>_id\<close>.\<close>

record bill =
  ident :: objectid
  Name :: string
  Mobile :: string
  Date :: int
  Morning :: jsnum
  Evening :: jsnum
  Rate :: jsnum
  TotalLiters :: jsnum
  TotalAmount :: jsnum
  CreatedAt :: int

text \<open>
  The document of \<^verbatim>\<open>new Bill()\<close> after the handler's assignments and before it is
  validated: its date may be invalid and its Numbers may be NaN.
\<close>

record document =
  doc_id :: objectid
  doc_Name :: string
  doc_Mobile :: string
  doc_Date :: "int option"
  doc_Morning :: jsnum
  doc_Evening :: jsnum
  doc_Rate :: jsnum
  doc_TotalLiters :: jsnum
  doc_TotalAmount :: jsnum
  doc_CreatedAt :: int

type_synonym store = "bill list"

text \<open>The validator of \<open>Mobile\<close>: \<^verbatim>\<open>/^\d{10}$/.test(v)\<close>.\<close>

definition mobile_validator :: "string \<Rightarrow> bool" where
  "mobile_validator v = (length v = 10 \<and> list_all is_digit v)"

text \<open>The minimum of \<open>Rate\<close> is the Number written \<^verbatim>\<open>0.01\<close>.\<close>

definition min_Rate :: jsnum where
  "min_Rate = fl (1 / 100)"

text \<open>
  Validation of a document against the schema; the result lists the paths that fail.
  An invalid date and a NaN fail the cast to the type of their path, which is recorded
  when the handler assigns the path; the validators run when the document is saved, in
  the order of the schema, on the paths that were cast. A \<open>required\<close> string must be
  non-empty; \<open>min\<close> asks \<^verbatim>\<open>value >= min\<close>.
\<close>

definition validate :: "document \<Rightarrow> string list" where
  "validate d =
     (if doc_Date d = None then [''Date''] else []) @
     (if isNaN (doc_Morning d) then [''Morning''] else []) @
     (if isNaN (doc_Evening d) then [''Evening''] else []) @
     (if isNaN (doc_Rate d) then [''Rate''] else []) @
     (if isNaN (doc_TotalLiters d) then [''TotalLiters''] else []) @
     (if isNaN (doc_TotalAmount d) then [''TotalAmount''] else []) @
     (if doc_Name d = [] then [''Name''] else []) @
     (if doc_Mobile d = [] \<or> \<not> mobile_validator (doc_Mobile d) then [''Mobile''] else []) @
     (if \<not> isNaN (doc_Morning d) \<and> \<not> js_ge (doc_Morning d) (Fin 0) then [''Morning''] else []) @
     (if \<not> isNaN (doc_Evening d) \<and> \<not> js_ge (doc_Evening d) (Fin 0) then [''Evening''] else []) @
     (if \<not> isNaN (doc_Rate d) \<and> \<not> js_ge (doc_Rate d) min_Rate then [''Rate''] else [])"

definition stored :: "document \<Rightarrow> int \<Rightarrow> bill" where
  "stored d t =
     \<lparr>ident = doc_id d, Name = doc_Name d, Mobile = doc_Mobile d, Date = t,
      Morning = doc_Morning d, Evening = doc_Evening d, Rate = doc_Rate d,
      TotalLiters = doc_TotalLiters d, TotalAmount = doc_TotalAmount d,
      CreatedAt = doc_CreatedAt d\<rparr>"

text \<open>
  \<^verbatim>\<open>bill.save()\<close>: the document is validated, then inserted; the collection refuses a
  second document with the same \<^verbatim>\<open>_id\<close>.
\<close>

definition save :: "document \<Rightarrow> store \<Rightarrow> js_error + (bill \<times> store)" where
  "save d st = (case validate d of
       p # ps \<Rightarrow> Inl (ValidationError (p # ps))
     | [] \<Rightarrow> (case doc_Date d of
         None \<Rightarrow> Inl (ValidationError [''Date''])
       | Some t \<Rightarrow>
           if doc_id d \<in> set (map ident st) then Inl (DuplicateKey (doc_id d))
           else Inr (stored d t, st @ [stored d t])))"

section \<open>Responses\<close>

text \<open>
  A response is a status code and a JSON payload. Of an error payload the model keeps
  the \<open>error\<close> member: a fixed text, or the message of the error that was caught.
\<close>

datatype payload =
    BillJson bill
  | BillsJson "bill list"
  | ErrorJson string
  | ErrorOf js_error
  | MessageJson string

datatype response = Response (status: nat) (payload: payload)

text \<open>
  The message of a Mongoose validation error starts with \<^verbatim>\<open>Bill validation failed\<close>;
  no other error of the model has \<^verbatim>\<open>validation failed\<close> in its message.
\<close>

fun includes_validation_failed :: "js_error \<Rightarrow> bool" where
  "includes_validation_failed (ValidationError ps) = True"
| "includes_validation_failed e = False"

section \<open>POST /api/bills\<close>

definition create_catch :: "js_error \<Rightarrow> response" where
  "create_catch err =
     Response 400 (if includes_validation_failed err then ErrorOf err
                   else ErrorJson ''Failed to create bill'')"

text \<open>
  \<open>oid\<close> is the identifier that \<^verbatim>\<open>new Bill()\<close> generates and \<open>now\<close> the value of
  \<^verbatim>\<open>Date.now\<close> for \<open>CreatedAt\<close>. \<open>new_Bill\<close> is the document after the handler's
  assignments: the two totals are computed from the converted quantities and rate.
\<close>

definition new_Bill ::
  "objectid \<Rightarrow> int \<Rightarrow> string \<Rightarrow> string \<Rightarrow> int option \<Rightarrow> jsnum \<Rightarrow> jsnum \<Rightarrow> jsnum \<Rightarrow> document" where
  "new_Bill oid now name mobile date morning evening rate =
     \<lparr>doc_id = oid, doc_Name = name, doc_Mobile = mobile, doc_Date = date,
      doc_Morning = morning, doc_Evening = evening, doc_Rate = rate,
      doc_TotalLiters = js_add morning evening,
      doc_TotalAmount = js_mul (js_add morning evening) rate,
      doc_CreatedAt = now\<rparr>"

definition create_bill ::
  "platform \<Rightarrow> objectid \<Rightarrow> int \<Rightarrow> body \<Rightarrow> store \<Rightarrow> response \<times> store" where
  "create_bill P oid now rawBody st =
     (case js_String P (get_field rawBody ''Name'') of
        Inl e \<Rightarrow> (create_catch e, st)
      | Inr name \<Rightarrow>
     (case js_String P (get_field rawBody ''Mobile'') of
        Inl e \<Rightarrow> (create_catch e, st)
      | Inr mobile \<Rightarrow>
     (case new_Date P (get_field rawBody ''Date'') of
        Inl e \<Rightarrow> (create_catch e, st)
      | Inr date \<Rightarrow>
     (case parseFloat P (get_field rawBody ''Morning'') of
        Inl e \<Rightarrow> (create_catch e, st)
      | Inr morning \<Rightarrow>
     (case parseFloat P (get_field rawBody ''Evening'') of
        Inl e \<Rightarrow> (create_catch e, st)
      | Inr evening \<Rightarrow>
     (case parseFloat P (get_field rawBody ''Rate'') of
        Inl e \<Rightarrow> (create_catch e, st)
      | Inr rate \<Rightarrow>
          if name = [] \<or> mobile = [] \<or> not_Date date \<or>
             isNaN morning \<or> isNaN evening \<or> isNaN rate
          then (Response 400 (ErrorJson ''Missing or invalid required fields''), st)
          else
            (case save (new_Bill oid now name mobile date morning evening rate) st of
               Inl e \<Rightarrow> (create_catch e, st)
             | Inr (b, st') \<Rightarrow> (Response 201 (BillJson b), st'))))))))"

section \<open>Queries with \<^verbatim>\<open>$regex\<close>\<close>

text \<open>
  Both read handlers pass the query string to the database as the pattern of a
  \<^verbatim>\<open>$regex\<close> condition. The database refuses a pattern that contains the character
  NUL; it compiles any other as a Perl-compatible regular expression and looks for a
  match anywhere in the field. Outside a character class the metacharacters of such
  an expression are the backslash and \<^verbatim>\<open>^ $ . [ | ( ) ? * + {\<close>. The fragment modelled
  here: a character that is not a metacharacter stands for itself, a dot for any
  character but a line feed, a backslash before a printable ASCII character that is
  neither a letter nor a digit for that character; a pattern that ends in a lone
  backslash does not compile. Every other pattern is left to the \<open>pcre\<close> parameter of
  the platform.
\<close>

datatype atom = Lit char | AnyChar

datatype parsed = Atoms "atom list" | Invalid | Beyond

definition backslash :: char where
  "backslash = CHR 0x5C"

definition nul :: char where
  "nul = CHR 0x00"

definition is_meta :: "char \<Rightarrow> bool" where
  "is_meta c = (c = backslash \<or> c \<in> set ''^$.[|()?*+{'')"

definition is_printable :: "char \<Rightarrow> bool" where
  "is_printable c = (32 \<le> (of_char c :: nat) \<and> (of_char c :: nat) \<le> 126)"

definition is_alnum :: "char \<Rightarrow> bool" where
  "is_alnum c = (let n = (of_char c :: nat)
     in (48 \<le> n \<and> n \<le> 57) \<or> (65 \<le> n \<and> n \<le> 90) \<or> (97 \<le> n \<and> n \<le> 122))"

fun cons_atom :: "atom \<Rightarrow> parsed \<Rightarrow> parsed" where
  "cons_atom a (Atoms as) = Atoms (a # as)"
| "cons_atom a Invalid = Invalid"
| "cons_atom a Beyond = Beyond"

fun parse_pattern :: "string \<Rightarrow> parsed" where
  "parse_pattern [] = Atoms []"
| "parse_pattern [c] =
     (if c = backslash then Invalid
      else if c = CHR ''.'' then Atoms [AnyChar]
      else if is_meta c then Beyond
      else Atoms [Lit c])"
| "parse_pattern (c # d # ds) =
     (if c = backslash then
        (if is_printable d \<and> \<not> is_alnum d then cons_atom (Lit d) (parse_pattern ds)
         else Beyond)
      else if c = CHR ''.'' then cons_atom AnyChar (parse_pattern (d # ds))
      else if is_meta c then Beyond
      else cons_atom (Lit c) (parse_pattern (d # ds)))"

text \<open>
  Caseless matching folds the letters. The characters of the model are the code points
  below 256; their capital letters are \<^verbatim>\<open>A\<close> to \<^verbatim>\<open>Z\<close> and the code points 192 to 222
  except the multiplication sign 215, each 32 below its small letter.
\<close>

definition to_lower :: "char \<Rightarrow> char" where
  "to_lower c =
     (case map_of (zip ''ABCDEFGHIJKLMNOPQRSTUVWXYZ'' ''abcdefghijklmnopqrstuvwxyz'') c of
        Some l \<Rightarrow> l
      | None \<Rightarrow>
          if 192 \<le> (of_char c :: nat) \<and> (of_char c :: nat) \<le> 222 \<and> (of_char c :: nat) \<noteq> 215
          then char_of ((of_char c :: nat) + 32)
          else c)"

fun atom_match :: "bool \<Rightarrow> atom \<Rightarrow> char \<Rightarrow> bool" where
  "atom_match ci (Lit c) x = (if ci then to_lower x = to_lower c else x = c)"
| "atom_match ci AnyChar x = (x \<noteq> CHR 0x0A)"

fun match_here :: "bool \<Rightarrow> atom list \<Rightarrow> string \<Rightarrow> bool" where
  "match_here ci [] s = True"
| "match_here ci (a # as) [] = False"
| "match_here ci (a # as) (x # xs) = (atom_match ci a x \<and> match_here ci as xs)"

fun regex_search :: "bool \<Rightarrow> atom list \<Rightarrow> string \<Rightarrow> bool" where
  "regex_search ci as [] = match_here ci as []"
| "regex_search ci as (x # xs) = (match_here ci as (x # xs) \<or> regex_search ci as xs)"

text \<open>Compiling a pattern: the matcher, or \<open>None\<close> when the pattern is refused.\<close>

definition regex_compile :: "platform \<Rightarrow> string \<Rightarrow> bool \<Rightarrow> (string \<Rightarrow> bool) option" where
  "regex_compile P pat ci =
     (if nul \<in> set pat then None
      else (case parse_pattern pat of
              Atoms as \<Rightarrow> Some (regex_search ci as)
            | Invalid \<Rightarrow> None
            | Beyond \<Rightarrow> pcre P pat ci))"

text \<open>
  \<^verbatim>\<open>Bill.find({ $or: [{ Name: { $regex: query, $options: 'i' } }, { Mobile: { $regex: query } }] })\<close>:
  the database refuses the whole query when a pattern does not compile.
\<close>

definition find_regex :: "platform \<Rightarrow> string \<Rightarrow> store \<Rightarrow> js_error + bill list" where
  "find_regex P query st =
     (case regex_compile P query True of
        None \<Rightarrow> Inl (RegexError query)
      | Some name_matches \<Rightarrow>
          (case regex_compile P query False of
             None \<Rightarrow> Inl (RegexError query)
           | Some mobile_matches \<Rightarrow>
               Inr (filter (\<lambda>b. name_matches (Name b) \<or> mobile_matches (Mobile b)) st)))"

text \<open>
  \<^verbatim>\<open>.sort({ Date: -1 })\<close>: by date, latest first. The database fixes no order among
  bills of the same date; the model takes a stable sort.
\<close>

definition sort_Date_desc :: "bill list \<Rightarrow> bill list" where
  "sort_Date_desc bs = sort_key (\<lambda>b. - Date b) bs"

section \<open>GET /api/bills, GET /api/bills/search and DELETE /api/bills/:id\<close>

text \<open>
  The query parameter is a string or absent (a repeated or bracketed parameter, which
  Express parses to an array or an object, is outside the model).
  \<^verbatim>\<open>query ? ... : ...\<close> and \<^verbatim>\<open>!query\<close> test its truthiness: an absent and an empty
  query are falsy.
\<close>

definition list_bills :: "platform \<Rightarrow> string option \<Rightarrow> store \<Rightarrow> response" where
  "list_bills P query st =
     (case (case query of
              None \<Rightarrow> Inr st
            | Some q \<Rightarrow> if q = [] then Inr st else find_regex P q st) of
        Inl err \<Rightarrow> Response 500 (ErrorJson ''Failed to fetch bills'')
      | Inr bills \<Rightarrow> Response 200 (BillsJson (sort_Date_desc bills)))"

definition search_bills :: "platform \<Rightarrow> string option \<Rightarrow> store \<Rightarrow> response" where
  "search_bills P query st =
     (case query of
        None \<Rightarrow> Response 400 (ErrorJson ''Search query required'')
      | Some q \<Rightarrow>
          if q = [] then Response 400 (ErrorJson ''Search query required'')
          else (case find_regex P q st of
                  Inl err \<Rightarrow> Response 500 (ErrorJson ''Search failed'')
                | Inr bills \<Rightarrow> Response 200 (BillsJson (sort_Date_desc bills))))"

text \<open>
  \<^verbatim>\<open>Bill.findByIdAndDelete(req.params.id)\<close> casts the path parameter to an identifier,
  which throws when the cast fails, and removes the first bill with that identifier.
\<close>

fun remove_ident :: "objectid \<Rightarrow> store \<Rightarrow> store" where
  "remove_ident i [] = []"
| "remove_ident i (b # bs) = (if ident b = i then bs else b # remove_ident i bs)"

definition findByIdAndDelete :: "platform \<Rightarrow> string \<Rightarrow> store \<Rightarrow> js_error + (bill option \<times> store)" where
  "findByIdAndDelete P id_param st = (case castObjectId P id_param of
       None \<Rightarrow> Inl (CastError id_param)
     | Some i \<Rightarrow> Inr (find (\<lambda>b. ident b = i) st, remove_ident i st))"

definition delete_bill :: "platform \<Rightarrow> string \<Rightarrow> store \<Rightarrow> response \<times> store" where
  "delete_bill P id_param st = (case findByIdAndDelete P id_param st of
       Inl err \<Rightarrow> (Response 500 (ErrorOf err), st)
     | Inr (None, st') \<Rightarrow> (Response 404 (ErrorJson ''Bill not found''), st')
     | Inr (Some bill, st') \<Rightarrow> (Response 200 (MessageJson ''Bill deleted successfully''), st'))"

section \<open>A platform for the examples\<close>

text \<open>
  The examples below run on a platform with the text of a Number, calendar dates
  written \<^verbatim>\<open>YYYY-MM-DD\<close> (midnight UTC; a day up to 31 that is past the end of its
  month counts on into the next month) and identifiers of 24 hexadecimal digits. No
  example reaches \<open>pcre\<close>.
\<close>

text \<open>
  The text of a Number: the fewest decimal digits that read back as the Number (of two
  such digit strings the one nearer to the Number), written with a point, or with an
  exponent when the Number is at least \<open>10^21\<close> or less than \<open>10^-6\<close>.
  \<open>ilog10 a\<close> is the integer part of the decimal logarithm of a positive rational.
\<close>

fun nat_digits :: "nat \<Rightarrow> nat \<Rightarrow> string" where
  "nat_digits 0 n = []"
| "nat_digits (Suc k) n =
     (if n < 10 then [''0123456789'' ! n]
      else nat_digits k (n div 10) @ [''0123456789'' ! (n mod 10)])"

definition ilog10 :: "rat \<Rightarrow> int" where
  "ilog10 a = (case quotient_of a of (p, q) \<Rightarrow>
     let d = int (floorlog 10 (nat p)) - int (floorlog 10 (nat q))
     in if pow10 d \<le> a then d else d - 1)"

fun shortest_digits :: "nat \<Rightarrow> rat \<Rightarrow> int \<Rightarrow> nat \<Rightarrow> nat \<times> nat" where
  "shortest_digits 0 x n k = (nat \<lfloor>x / pow10 (n - int k)\<rfloor>, k)"
| "shortest_digits (Suc fuel) x n k =
     (let unit = pow10 (n - int k);
          lo = nat \<lfloor>x / unit\<rfloor>;
          hi = lo + 1;
          lo_ok = (fl (of_nat lo * unit) = Fin x);
          hi_ok = (fl (of_nat hi * unit) = Fin x)
      in if lo_ok \<and> hi_ok
         then (if x - of_nat lo * unit < of_nat hi * unit - x then (lo, k)
               else if of_nat hi * unit - x < x - of_nat lo * unit then (hi, k)
               else if even lo then (lo, k) else (hi, k))
         else if lo_ok then (lo, k)
         else if hi_ok then (hi, k)
         else shortest_digits fuel x n (k + 1))"

definition positive_text :: "rat \<Rightarrow> string" where
  "positive_text x =
     (let n0 = ilog10 x + 1;
          (s, k0) = shortest_digits 17 x n0 1;
          carry = (s = 10 ^ k0);
          ds = (if carry then ''1'' else nat_digits 21 s);
          k = int (length ds);
          n = (if carry then n0 + 1 else n0);
          e = n - 1;
          exponent = CHR ''e'' # (if e < 0 then ''-'' else ''+'') @ nat_digits 21 (nat \<bar>e\<bar>)
      in if k \<le> n \<and> n \<le> 21 then ds @ replicate (nat (n - k)) CHR ''0''
         else if 0 < n \<and> n \<le> 21 then take (nat n) ds @ ''.'' @ drop (nat n) ds
         else if - 6 < n \<and> n \<le> 0 then ''0.'' @ replicate (nat (- n)) CHR ''0'' @ ds
         else if k = 1 then ds @ exponent
         else hd ds # ''.'' @ tl ds @ exponent)"

definition example_numToString :: "jsnum \<Rightarrow> string" where
  "example_numToString n = (case n of
       NaN \<Rightarrow> ''NaN''
     | PosInf \<Rightarrow> ''Infinity''
     | NegInf \<Rightarrow> ''-Infinity''
     | Fin q \<Rightarrow>
         if q = 0 then ''0''
         else if q < 0 then ''-'' @ positive_text (- q)
         else positive_text q)"

definition days_from_civil :: "int \<Rightarrow> int \<Rightarrow> int \<Rightarrow> int" where
  "days_from_civil y m d =
     (let y' = (if m \<le> 2 then y - 1 else y);
          era = y' div 400;
          yoe = y' - era * 400;
          doy = (153 * (if 2 < m then m - 3 else m + 9) + 2) div 5 + d - 1;
          doe = yoe * 365 + yoe div 4 - yoe div 100 + doy
      in era * 146097 + doe - 719468)"

definition example_dateParse :: "string \<Rightarrow> int option" where
  "example_dateParse s =
     (if length s = 10 \<and> s ! 4 = CHR ''-'' \<and> s ! 7 = CHR ''-'' \<and>
         list_all is_digit (take 4 s @ take 2 (drop 5 s) @ drop 8 s)
      then (let y = int (digits_val (take 4 s));
                m = int (digits_val (take 2 (drop 5 s)));
                d = int (digits_val (drop 8 s))
            in if 1 \<le> m \<and> m \<le> 12 \<and> 1 \<le> d \<and> d \<le> 31
               then Some (days_from_civil y m d * 86400000) else None)
      else None)"

definition is_hex :: "char \<Rightarrow> bool" where
  "is_hex c = (c \<in> set ''0123456789abcdefABCDEF'')"

definition example_castObjectId :: "string \<Rightarrow> objectid option" where
  "example_castObjectId s =
     (if length s = 24 \<and> list_all is_hex s then Some (map to_lower s) else None)"

definition example_platform :: platform where
  "example_platform =
     \<lparr>numToString = example_numToString, dateParse = example_dateParse,
      castObjectId = example_castObjectId, pcre = (\<lambda>pat ci. None)\<rparr>"

text \<open>
  The example of the specification: the request body and the bill it creates, with an
  identifier and a creation time for the example.
\<close>

definition asha_body :: body where
  "asha_body =
     [''Name'' \<mapsto> JStr ''Asha'', ''Mobile'' \<mapsto> JStr ''9876543210'',
      ''Date'' \<mapsto> JStr ''2024-01-05'', ''Morning'' \<mapsto> JNum (Fin 2),
      ''Evening'' \<mapsto> JNum (Fin (3 / 2)), ''Rate'' \<mapsto> JNum (Fin 50)]"

definition asha_bill :: bill where
  "asha_bill =
     \<lparr>ident = ''65a1b2c3d4e5f60718293a4b'', Name = ''Asha'', Mobile = ''9876543210'',
      Date = 1704412800000, Morning = Fin 2, Evening = Fin (3 / 2), Rate = Fin 50,
      TotalLiters = Fin (7 / 2), TotalAmount = Fin 175, CreatedAt = 1704450000000\<rparr>"

text \<open>
  A request whose quantities are the texts \<^verbatim>\<open>0.1\<close> and \<^verbatim>\<open>0.2\<close>, and the bill it
  creates: the Numbers nearest to one tenth and to one fifth, and their sum and its
  triple as Numbers.
\<close>

definition tenth_body :: body where
  "tenth_body =
     [''Name'' \<mapsto> JStr ''Asha'', ''Mobile'' \<mapsto> JStr ''9876543210'',
      ''Date'' \<mapsto> JStr ''2024-01-05'', ''Morning'' \<mapsto> JStr ''0.1'',
      ''Evening'' \<mapsto> JStr ''0.2'', ''Rate'' \<mapsto> JNum (Fin 3)]"

definition tenth_bill :: bill where
  "tenth_bill =
     \<lparr>ident = ''65a1b2c3d4e5f60718293a4b'', Name = ''Asha'', Mobile = ''9876543210'',
      Date = 1704412800000,
      Morning = Fin (3602879701896397 / 36028797018963968),
      Evening = Fin (3602879701896397 / 18014398509481984),
      Rate = Fin 3,
      TotalLiters = Fin (1351079888211149 / 4503599627370496),
      TotalAmount = Fin (4053239664633447 / 4503599627370496),
      CreatedAt = 1704450000000\<rparr>"

section \<open>Notions used to state the properties\<close>

text \<open>
  The filter in the words of the specification: the name contains the query as a
  substring up to the case of letters, or the mobile number contains it as it is.
\<close>

definition substring_filter :: "string \<Rightarrow> bill \<Rightarrow> bool" where
  "substring_filter q b =
     (sublist (map to_lower q) (map to_lower (Name b)) \<or> sublist q (Mobile b))"

text \<open>
  A character of a query that stands for itself: neither a metacharacter of regular
  expressions nor NUL.
\<close>

definition plain_char :: "char \<Rightarrow> bool" where
  "plain_char c = (\<not> is_meta c \<and> c \<noteq> nul)"

text \<open>
  The numeric literals of \<^verbatim>\<open>parseFloat\<close>, after the grammar of the language
  (\<^verbatim>\<open>StrDecimalLiteral\<close>): an optional sign, then \<^verbatim>\<open>Infinity\<close> or decimal digits with an
  optional fraction and an optional exponent. A literal is given by its parts: the
  sign, the digits before the point, the digits after the point when there is a point,
  and the letter, sign and digits of the exponent when there is one.
\<close>

datatype sign_mark = NoSign | PlusSign | MinusSign

fun sign_text :: "sign_mark \<Rightarrow> string" where
  "sign_text NoSign = []"
| "sign_text PlusSign = ''+''"
| "sign_text MinusSign = ''-''"

datatype literal =
    InfinityLit sign_mark
  | DecimalLit sign_mark string "string option" "(char \<times> sign_mark \<times> string) option"

text \<open>The text of a literal.\<close>

fun literal_text :: "literal \<Rightarrow> string" where
  "literal_text (InfinityLit sg) = sign_text sg @ ''Infinity''"
| "literal_text (DecimalLit sg ip fr ex) =
     sign_text sg @ ip @
     (case fr of None \<Rightarrow> [] | Some fp \<Rightarrow> CHR ''.'' # fp) @
     (case ex of None \<Rightarrow> [] | Some (c, s, ds) \<Rightarrow> c # sign_text s @ ds)"

text \<open>
  The parts of a literal are digits; there is a digit before or after the point, and
  before the exponent when there is no point; an exponent has at least one digit.
\<close>

fun well_formed :: "literal \<Rightarrow> bool" where
  "well_formed (InfinityLit sg) = True"
| "well_formed (DecimalLit sg ip fr ex) =
     (list_all is_digit ip \<and>
      (case fr of None \<Rightarrow> ip \<noteq> [] | Some fp \<Rightarrow> list_all is_digit fp \<and> (ip \<noteq> [] \<or> fp \<noteq> [])) \<and>
      (case ex of
         None \<Rightarrow> True
       | Some (c, s, ds) \<Rightarrow> (c = CHR ''e'' \<or> c = CHR ''E'') \<and> ds \<noteq> [] \<and> list_all is_digit ds))"

text \<open>
  The Number of a literal: the decimal value of its digits, scaled by the power of ten
  of its exponent and rounded once to the nearest Number.
\<close>

fun decimal_value :: "string \<Rightarrow> nat" where
  "decimal_value [] = 0"
| "decimal_value (d # ds) = (of_char d - 48) * 10 ^ length ds + decimal_value ds"

fun literal_value :: "literal \<Rightarrow> jsnum" where
  "literal_value (InfinityLit sg) = (if sg = MinusSign then NegInf else PosInf)"
| "literal_value (DecimalLit sg ip fr ex) =
     (let mantissa = of_nat (decimal_value ip) +
            (case fr of None \<Rightarrow> 0 | Some fp \<Rightarrow> of_nat (decimal_value fp) / 10 ^ length fp);
          exponent = (case ex of
              None \<Rightarrow> 0
            | Some (c, s, ds) \<Rightarrow>
                if s = MinusSign then - int (decimal_value ds) else int (decimal_value ds));
          magnitude = fl (mantissa * pow10 exponent)
      in if sg = MinusSign then js_neg magnitude else magnitude)"

text \<open>
  A literal at the start of a string is the numeric prefix of the string when the rest
  of the string cannot lengthen it: the rest does not go on with a digit, nor with an
  exponent when the literal has none, nor with a point when the literal has neither a
  point nor an exponent.
\<close>

fun starts_exponent :: "string \<Rightarrow> bool" where
  "starts_exponent (c # d # t) =
     ((c = CHR ''e'' \<or> c = CHR ''E'') \<and>
      (is_digit d \<or> ((d = CHR ''+'' \<or> d = CHR ''-'') \<and> (case t of [] \<Rightarrow> False | x # u \<Rightarrow> is_digit x))))"
| "starts_exponent r = False"

fun ends_literal :: "literal \<Rightarrow> string \<Rightarrow> bool" where
  "ends_literal (InfinityLit sg) r = True"
| "ends_literal (DecimalLit sg ip fr ex) [] = True"
| "ends_literal (DecimalLit sg ip fr ex) (c # t) =
     (\<not> is_digit c \<and>
      (case ex of
         Some x \<Rightarrow> True
       | None \<Rightarrow> \<not> starts_exponent (c # t) \<and>
           (case fr of Some fp \<Rightarrow> True | None \<Rightarrow> c \<noteq> CHR ''.'')))"

section \<open>Rounding: the Numbers that are exact\<close>

lemma pow2_powi: "pow2 e = 2 powi e"
  by (simp add: pow2_def power_int_def field_simps)

lemma pow2_pos: "0 < pow2 e"
  by (simp add: pow2_powi)

lemma pow2_add: "pow2 (a + b) = pow2 a * pow2 b"
  by (simp add: pow2_powi power_int_add)

lemma pow2_mono: "a \<le> b \<Longrightarrow> pow2 a \<le> pow2 b"
  by (simp add: pow2_powi power_int_increasing)

lemma pow2_strict_mono: "a < b \<Longrightarrow> pow2 a < pow2 b"
  by (simp add: pow2_powi power_int_strict_increasing)

lemma pow2_nat: "pow2 (int n) = 2 ^ n"
  by (simp add: pow2_def)

lemma two_power_le_of_int:
  assumes "0 < p" and "2 ^ n \<le> nat p"
  shows "(2::rat) ^ n \<le> of_int p"
proof -
  have "int (2 ^ n) \<le> p" using assms by (simp add: le_nat_iff)
  then have "(2::int) ^ n \<le> p" by simp
  then have "of_int ((2::int) ^ n) \<le> (of_int p :: rat)" by (simp only: of_int_le_iff)
  then show ?thesis by simp
qed

lemma of_int_less_two_power:
  assumes "0 < p" and "nat p < 2 ^ n"
  shows "of_int p < (2::rat) ^ n"
proof -
  have "p < int (2 ^ n)" using assms by (simp add: nat_less_iff)
  then have "p < (2::int) ^ n" by simp
  then have "(of_int p :: rat) < of_int ((2::int) ^ n)" by (simp only: of_int_less_iff)
  then show ?thesis by simp
qed

lemma pow2_diff_nat: "pow2 (int m - int n) = 2 ^ m / 2 ^ n"
  by (simp add: pow2_powi power_int_diff)

lemma ilog2_rough:
  assumes "0 < a" and q: "quotient_of a = (p, q)"
  shows "pow2 (int (floorlog 2 (nat p)) - int (floorlog 2 (nat q)) - 1) < a \<and>
         a < pow2 (int (floorlog 2 (nat p)) - int (floorlog 2 (nat q)) + 1)"
proof -
  have qpos: "0 < q" using q by (rule quotient_of_denom_pos)
  have a: "a = of_int p / of_int q" using q by (rule quotient_of_div)
  have ppos: "0 < p" using assms(1) qpos a by (simp add: zero_less_divide_iff)
  define bp where "bp = floorlog 2 (nat p)"
  define bq where "bq = floorlog 2 (nat q)"
  have bp: "2 ^ (bp - 1) \<le> nat p" "nat p < 2 ^ bp"
    using floorlog_bounds [of "nat p" 2] ppos by (simp_all add: bp_def)
  have bq: "2 ^ (bq - 1) \<le> nat q" "nat q < 2 ^ bq"
    using floorlog_bounds [of "nat q" 2] qpos by (simp_all add: bq_def)
  have bp1: "1 \<le> bp" using ppos by (simp add: bp_def floorlog_def)
  have bq1: "1 \<le> bq" using qpos by (simp add: bq_def floorlog_def)
  have P1: "(2::rat) ^ (bp - 1) \<le> of_int p"
    using ppos bp(1) by (rule two_power_le_of_int)
  have P2: "of_int p < (2::rat) ^ bp"
    using ppos bp(2) by (rule of_int_less_two_power)
  have Q1: "(2::rat) ^ (bq - 1) \<le> of_int q"
    using qpos bq(1) by (rule two_power_le_of_int)
  have Q2: "of_int q < (2::rat) ^ bq"
    using qpos bq(2) by (rule of_int_less_two_power)
  have qr: "(0::rat) < of_int q" using qpos by simp
  have e1: "int bp - int bq - 1 = int (bp - 1) - int bq" using bp1 by simp
  have e2: "int bp - int bq + 1 = int bp - int (bq - 1)" using bq1 by simp
  have "(2::rat) ^ (bp - 1) * of_int q < of_int p * 2 ^ bq"
  proof -
    have "(2::rat) ^ (bp - 1) * of_int q < 2 ^ (bp - 1) * 2 ^ bq"
      using Q2 by simp
    also have "\<dots> \<le> of_int p * 2 ^ bq" using P1 by simp
    finally show ?thesis .
  qed
  then have L: "pow2 (int bp - int bq - 1) < a"
    unfolding e1 pow2_diff_nat a using qr by (simp add: field_simps)
  have "of_int p * (2::rat) ^ (bq - 1) < 2 ^ bp * of_int q"
  proof -
    have "of_int p * (2::rat) ^ (bq - 1) < 2 ^ bp * 2 ^ (bq - 1)"
      using P2 by simp
    also have "\<dots> \<le> 2 ^ bp * of_int q" using Q1 by simp
    finally show ?thesis .
  qed
  then have U: "a < pow2 (int bp - int bq + 1)"
    unfolding e2 pow2_diff_nat a using qr by (simp add: field_simps)
  show ?thesis using L U by (simp add: bp_def bq_def)
qed

lemma ilog2_bounds:
  assumes "0 < a"
  shows "pow2 (ilog2 a) \<le> a \<and> a < pow2 (ilog2 a + 1)"
proof -
  obtain p q where q: "quotient_of a = (p, q)" by (cases "quotient_of a")
  define d where "d = int (floorlog 2 (nat p)) - int (floorlog 2 (nat q))"
  have r: "pow2 (d - 1) < a" "a < pow2 (d + 1)"
    using ilog2_rough [OF assms q] by (simp_all add: d_def)
  have i: "ilog2 a = (if pow2 d \<le> a then d else d - 1)"
    by (simp add: ilog2_def q d_def Let_def)
  show ?thesis using r by (simp add: i)
qed

lemma ilog2_unique:
  assumes "0 < a" and "pow2 k \<le> a" and "a < pow2 (k + 1)"
  shows "ilog2 a = k"
proof (rule ccontr)
  assume ne: "ilog2 a \<noteq> k"
  have b: "pow2 (ilog2 a) \<le> a" "a < pow2 (ilog2 a + 1)"
    using ilog2_bounds [OF assms(1)] by simp_all
  show False
  proof (cases "ilog2 a < k")
    case True
    then have "pow2 (ilog2 a + 1) \<le> pow2 k" by (intro pow2_mono) simp
    then show False using b(2) assms(2) by simp
  next
    case False
    then have "k + 1 \<le> ilog2 a" using ne by simp
    then have "pow2 (k + 1) \<le> pow2 (ilog2 a)" by (rule pow2_mono)
    then show False using b(1) assms(3) by simp
  qed
qed

lemma round_half_even_of_int: "round_half_even (of_int n) = n"
  by (simp add: round_half_even_def)

lemma pow2_less_cancel: "pow2 a < pow2 b \<Longrightarrow> a < b"
  by (rule ccontr) (use pow2_mono [of b a] in simp)

lemma fl_pos_exact:
  assumes m: "0 < m" "m < 2 ^ 53" and e: "- 1074 \<le> e" "e \<le> 971"
  shows "fl (of_int m * pow2 e) = Fin (of_int m * pow2 e)"
proof -
  define a where "a = of_int m * pow2 e"
  have apos: "0 < a" using m(1) by (simp add: a_def pow2_pos)
  define k where "k = ilog2 a"
  define E where "E = max (k - 52) (- 1074)"
  have kb: "pow2 k \<le> a" using ilog2_bounds [OF apos] by (simp add: k_def)
  have "(of_int m :: rat) < of_int ((2::int) ^ 53)" using m(2) by (simp only: of_int_less_iff)
  then have "(of_int m :: rat) < pow2 53" by (simp add: pow2_def)
  then have "a < pow2 53 * pow2 e" by (simp add: a_def pow2_pos)
  then have au: "a < pow2 (e + 53)" by (simp add: pow2_add mult.commute)
  then have "pow2 k < pow2 (e + 53)" using kb by simp
  then have "k < e + 53" by (rule pow2_less_cancel)
  then have Ee: "E \<le> e" using e(1) by (simp add: E_def)
  define n where "n = m * 2 ^ nat (e - E)"
  have "pow2 e = pow2 (int (nat (e - E))) * pow2 E"
    using Ee by (simp add: pow2_add [symmetric])
  then have pe: "pow2 e = 2 ^ nat (e - E) * pow2 E" by (simp only: pow2_nat)
  have an: "a = of_int n * pow2 E" by (simp add: a_def n_def pe)
  have Ep: "pow2 E \<noteq> 0" using pow2_pos [of E] by simp
  have q: "a / pow2 E = of_int n" using Ep by (simp add: an)
  have v: "of_int (round_half_even (a / pow2 E)) * pow2 E = a"
    unfolding q round_half_even_of_int by (rule an [symmetric])
  have "pow2 (e + 53) \<le> pow2 1024" using e(2) by (intro pow2_mono) simp
  then have no: "\<not> pow2 1024 \<le> a" using au by simp
  have "fl a = Fin a"
    using apos no v by (simp add: fl_def Let_def k_def [symmetric] E_def [symmetric])
  then show ?thesis by (simp add: a_def)
qed

lemma fl_neg: "fl (- x) = js_neg (fl x)"
  by (simp add: fl_def Let_def)

lemma fl_exact:
  assumes "\<bar>m\<bar> < 2 ^ 53" and "- 1074 \<le> e" and "e \<le> 971"
  shows "fl (of_int m * pow2 e) = Fin (of_int m * pow2 e)"
proof -
  consider "m = 0" | "0 < m" | "m < 0" by linarith
  then show ?thesis
  proof cases
    case 1
    then show ?thesis by (simp add: fl_def)
  next
    case 2
    then show ?thesis using assms by (intro fl_pos_exact) simp_all
  next
    case 3
    then have "fl (of_int (- m) * pow2 e) = Fin (of_int (- m) * pow2 e)"
      using assms by (intro fl_pos_exact) simp_all
    then have "fl (- (of_int m * pow2 e)) = Fin (- (of_int m * pow2 e))" by simp
    then show ?thesis by (cases "fl (of_int m * pow2 e)") (simp_all add: fl_neg)
  qed
qed

lemma fl_int: "\<bar>m\<bar> < 2 ^ 53 \<Longrightarrow> fl (of_int m) = Fin (of_int m)"
  using fl_exact [of m 0] by (simp add: pow2_def)

lemma fl_numeral: "numeral w < (2::int) ^ 53 \<Longrightarrow> fl (numeral w) = Fin (numeral w)"
  using fl_int [of "numeral w"] by simp

lemma fl_half: "\<bar>m\<bar> < 2 ^ 53 \<Longrightarrow> fl (of_int m / 2) = Fin (of_int m / 2)"
  using fl_exact [of m "- 1"] by (simp add: pow2_def)

lemma fl_not_NaN: "fl x \<noteq> NaN"
  by (simp add: fl_def Let_def)

text \<open>A positive rational whose binary exponent is known rounds as follows.\<close>

lemma fl_pos_eval:
  assumes "0 < a" and "pow2 k \<le> a" and "a < pow2 (k + 1)"
  shows "fl a =
    (if pow2 1024 \<le> of_int (round_half_even (a / pow2 (max (k - 52) (- 1074)))) *
          pow2 (max (k - 52) (- 1074))
     then PosInf
     else Fin (of_int (round_half_even (a / pow2 (max (k - 52) (- 1074)))) *
               pow2 (max (k - 52) (- 1074))))"
proof -
  have "ilog2 \<bar>a\<bar> = k" using assms by (intro ilog2_unique) simp_all
  then show ?thesis using assms(1) by (simp add: fl_def Let_def)
qed

lemma floor_rat_numeral: "\<lfloor>(numeral a / numeral b :: rat)\<rfloor> = numeral a div numeral b"
  using floor_divide_of_int_eq [of "numeral a" "numeral b", where ?'a = rat] by simp

lemma min_Rate_value: "min_Rate = Fin (5764607523034235 / 576460752303423488)"
  unfolding min_Rate_def
  by (subst fl_pos_eval [of _ "- 7"])
     (simp_all add: pow2_def round_half_even_def Let_def floor_rat_numeral)

lemma min_Rate_pos: "js_less (Fin 0) min_Rate"
  by (simp add: min_Rate_value)

lemma fl_0: "fl 0 = Fin 0"
  by (simp add: fl_def)

lemma fl_7_2: "fl (7 / 2) = Fin (7 / 2)"
  using fl_half [of 7] by simp

text \<open>
  Rounding moves a rational by at most half a unit in the last place: by the fraction
  \<open>2^-53\<close> of its magnitude, or by \<open>2^-1075\<close> near zero.
\<close>

lemma round_half_even_error: "\<bar>of_int (round_half_even q) - q\<bar> \<le> 1 / 2"
proof -
  define f where "f = \<lfloor>q\<rfloor>"
  have b: "of_int f \<le> q" "q < of_int f + 1" unfolding f_def by linarith+
  have "round_half_even q =
      (if q - of_int f < 1 / 2 then f else if 1 / 2 < q - of_int f then f + 1
       else if even f then f else f + 1)"
    by (simp add: round_half_even_def Let_def f_def)
  then show ?thesis using b by (auto simp: abs_if split: if_splits)
qed

lemma fl_error:
  assumes "fl x = Fin v"
  shows "\<bar>v - x\<bar> \<le> max (\<bar>x\<bar> / 2 ^ 53) (1 / 2 ^ 1075)"
proof (cases "x = 0")
  case True
  with assms show ?thesis by (simp add: fl_def)
next
  case False
  define a where "a = \<bar>x\<bar>"
  define k where "k = ilog2 a"
  define E where "E = max (k - 52) (- 1074)"
  define w where "w = of_int (round_half_even (a / pow2 E)) * pow2 E"
  have apos: "0 < a" using False by (simp add: a_def)
  have Ep: "0 < pow2 E" by (rule pow2_pos)
  from assms False have v: "v = (if 0 < x then w else - w)"
    by (auto simp: fl_def Let_def a_def [symmetric] k_def [symmetric] E_def [symmetric]
          w_def [symmetric] split: if_splits)
  have "w - a = (of_int (round_half_even (a / pow2 E)) - a / pow2 E) * pow2 E"
    using Ep by (simp add: w_def field_simps)
  then have "\<bar>w - a\<bar> = \<bar>of_int (round_half_even (a / pow2 E)) - a / pow2 E\<bar> * pow2 E"
    using Ep by (simp add: abs_mult)
  also have "\<dots> \<le> (1 / 2) * pow2 E"
    using round_half_even_error [of "a / pow2 E"] Ep by (intro mult_right_mono) simp_all
  finally have wa: "\<bar>w - a\<bar> \<le> pow2 E / 2" by simp
  have va: "\<bar>v - x\<bar> = \<bar>w - a\<bar>"
    using False by (auto simp: v a_def abs_if)
  have kb: "pow2 k \<le> a" using ilog2_bounds [OF apos] by (simp add: k_def)
  have half: "pow2 (e - 1) = pow2 e / 2" for e
    using pow2_add [of e "- 1"] by (simp add: pow2_def)
  have "pow2 E / 2 \<le> max (a / 2 ^ 53) (1 / 2 ^ 1075)"
  proof (cases "k - 52 \<le> - 1074")
    case True
    then have "E = - 1074" by (simp add: E_def)
    then have "pow2 E / 2 = 1 / 2 ^ 1075" by (simp add: pow2_def)
    then show ?thesis by simp
  next
    case False
    then have "E = k - 52" by (simp add: E_def)
    then have "pow2 E = pow2 k * pow2 (- 52)" using pow2_add [of k "- 52"] by simp
    then have "pow2 E / 2 = pow2 k / 2 ^ 53" by (simp add: pow2_def)
    also have "\<dots> \<le> a / 2 ^ 53" using kb by (simp add: divide_right_mono)
    finally show ?thesis by simp
  qed
  with wa va show ?thesis by (simp add: a_def)
qed

lemma round_half_even_nonneg: "0 \<le> q \<Longrightarrow> 0 \<le> round_half_even q"
  by (simp add: round_half_even_def Let_def)

lemma fl_nonneg: "0 \<le> x \<Longrightarrow> fl x = Fin v \<Longrightarrow> 0 \<le> v"
  using pow2_pos [of "max (ilog2 \<bar>x\<bar> - 52) (- 1074)"]
  by (auto simp: fl_def Let_def round_half_even_nonneg split: if_splits)

lemma fl_nonneg_cases:
  assumes "0 \<le> x"
  obtains v where "fl x = Fin v" "0 \<le> v" | "fl x = PosInf"
proof (cases "fl x")
  case NaN
  then show ?thesis by (simp add: fl_not_NaN)
next
  case PosInf
  then show ?thesis by (rule that(2))
next
  case NegInf
  with assms show ?thesis by (auto simp: fl_def Let_def split: if_splits)
next
  case (Fin v)
  with assms show ?thesis using fl_nonneg that(1) by blast
qed

lemma js_ge_zero_cases:
  assumes "js_ge x (Fin 0)"
  obtains m where "x = Fin m" "0 \<le> m" | "x = PosInf"
  using assms by (cases x) (auto simp: js_ge_def)

lemma js_add_nonneg:
  assumes "js_ge x (Fin 0)" and "js_ge y (Fin 0)"
  shows "js_ge (js_add x y) (Fin 0)"
    and "x = PosInf \<or> y = PosInf \<Longrightarrow> js_add x y = PosInf"
proof -
  show "x = PosInf \<or> y = PosInf \<Longrightarrow> js_add x y = PosInf"
    using assms by (cases x; cases y) (auto simp: js_ge_def)
  from assms(1) show "js_ge (js_add x y) (Fin 0)"
  proof (rule js_ge_zero_cases)
    fix m assume m: "x = Fin m" "0 \<le> m"
    from assms(2) show ?thesis
    proof (rule js_ge_zero_cases)
      fix e assume e: "y = Fin e" "0 \<le> e"
      then have "0 \<le> m + e" using m by simp
      then show ?thesis
        by (rule fl_nonneg_cases) (simp_all add: m e js_ge_def)
    next
      assume "y = PosInf"
      then show ?thesis using m by (simp add: js_ge_def)
    qed
  next
    assume "x = PosInf"
    then show ?thesis using assms(2) by (cases y) (simp_all add: js_ge_def)
  qed
qed

lemma js_mul_PosInf:
  assumes "js_ge x (Fin 0)" and "js_ge y (Fin 0)" and "js_mul x y \<noteq> NaN"
    and "x = PosInf \<or> y = PosInf"
  shows "js_mul x y = PosInf"
  using assms by (cases x; cases y) (auto simp: js_ge_def split: if_splits)

lemma min_Rate_ge_zero: "js_ge r min_Rate \<Longrightarrow> js_ge r (Fin 0)"
  by (cases r) (simp_all add: js_ge_def min_Rate_value)

text \<open>One tenth, one fifth, their sum as Numbers, and its triple.\<close>

lemmas fl_eval_simps = pow2_def round_half_even_def Let_def floor_rat_numeral

lemma fl_tenth: "fl (1 / 10) = Fin (3602879701896397 / 36028797018963968)"
  by (subst fl_pos_eval [of _ "- 4"]) (simp_all add: fl_eval_simps)

lemma fl_fifth: "fl (1 / 5) = Fin (3602879701896397 / 18014398509481984)"
  by (subst fl_pos_eval [of _ "- 3"]) (simp_all add: fl_eval_simps)

lemma fl_tenth_plus_fifth:
  "fl (10808639105689191 / 36028797018963968) = Fin (1351079888211149 / 4503599627370496)"
  by (subst fl_pos_eval [of _ "- 2"]) (simp_all add: fl_eval_simps)

lemma fl_times_three:
  "fl (4053239664633447 / 4503599627370496) = Fin (4053239664633447 / 4503599627370496)"
  by (subst fl_pos_eval [of _ "- 1"]) (simp_all add: fl_eval_simps)

section \<open>What \<^verbatim>\<open>parseFloat\<close> reads\<close>

text \<open>
  The scanner reads a well-formed literal that the rest of the string cannot lengthen,
  and returns the Number of the literal.
\<close>

lemma foldl_digits:
  "foldl (\<lambda>n c. 10 * n + (of_char c - 48)) a ds = a * 10 ^ length ds + decimal_value ds"
  by (induction ds arbitrary: a) (simp_all add: algebra_simps)

lemma digits_val_decimal: "digits_val ds = decimal_value ds"
  by (simp add: digits_val_def foldl_digits)

lemma decimal_value_append:
  "decimal_value (xs @ ys) = decimal_value xs * 10 ^ length ys + decimal_value ys"
  by (induction xs) (simp_all add: algebra_simps power_add)

lemma pow10_powi: "pow10 e = 10 powi e"
  by (simp add: pow10_def power_int_def field_simps)

lemma pow10_diff_nat: "pow10 (e - int n) = pow10 e / 10 ^ n"
  by (simp add: pow10_powi power_int_diff)

lemma mantissa_value:
  "of_nat (digits_val (ip @ fp)) * pow10 (e - int (length fp)) =
   (of_nat (decimal_value ip) + of_nat (decimal_value fp) / 10 ^ length fp) * pow10 e"
  by (simp add: digits_val_decimal decimal_value_append pow10_diff_nat field_simps)

lemma span_digits:
  assumes "list_all is_digit ds" and "t = [] \<or> \<not> is_digit (hd t)"
  shows "takeWhile is_digit (ds @ t) = ds" and "dropWhile is_digit (ds @ t) = t"
proof -
  have a: "\<And>x. x \<in> set ds \<Longrightarrow> is_digit x" using assms(1) by (simp add: list_all_iff)
  have "takeWhile is_digit t = []" "dropWhile is_digit t = t"
    using assms(2) by (cases t; simp)+
  then show "takeWhile is_digit (ds @ t) = ds" "dropWhile is_digit (ds @ t) = t"
    using a by (simp_all add: takeWhile_append2 dropWhile_append2)
qed

lemma scan_exponent_None_iff: "scan_exponent r = None \<longleftrightarrow> \<not> starts_exponent r"
proof (cases r)
  case Nil
  then show ?thesis by (simp add: scan_exponent_def)
next
  case (Cons c t)
  show ?thesis
  proof (cases t)
    case Nil
    with Cons show ?thesis by (simp add: scan_exponent_def scan_sign_def)
  next
    case (Cons d u)
    with \<open>r = c # t\<close> show ?thesis
      by (cases u) (auto simp: scan_exponent_def scan_sign_def Let_def is_digit_def)
  qed
qed

lemma scan_sign_text:
  assumes "u = [] \<or> (hd u \<noteq> CHR ''-'' \<and> hd u \<noteq> CHR ''+'')"
  shows "scan_sign (sign_text s @ u) = (s = MinusSign, u)"
  using assms by (cases s; cases u) (simp_all add: scan_sign_def)

lemma digit_not_sign: "is_digit c \<Longrightarrow> c \<noteq> CHR ''-'' \<and> c \<noteq> CHR ''+'' \<and> c \<noteq> CHR ''.'' \<and> c \<noteq> CHR ''I'' \<and> \<not> is_space c"
  by (auto simp: is_digit_def is_space_def)

lemma scan_exponent_text:
  assumes "c = CHR ''e'' \<or> c = CHR ''E''" and "ds \<noteq> []" and "list_all is_digit ds"
    and "t = [] \<or> \<not> is_digit (hd t)"
  shows "scan_exponent (c # sign_text s @ ds @ t) =
         Some (if s = MinusSign then - int (decimal_value ds) else int (decimal_value ds), t)"
proof -
  obtain d ds' where ds: "ds = d # ds'" using assms(2) by (cases ds) auto
  then have "is_digit d" using assms(3) by simp
  then have "hd (ds @ t) \<noteq> CHR ''-'' \<and> hd (ds @ t) \<noteq> CHR ''+''"
    using ds digit_not_sign by simp
  then have ss: "scan_sign (sign_text s @ ds @ t) = (s = MinusSign, ds @ t)"
    by (intro scan_sign_text) simp
  have sp: "takeWhile is_digit (ds @ t) = ds" "dropWhile is_digit (ds @ t) = t"
    using assms(3,4) by (rule span_digits)+
  from assms(1) show ?thesis
    by (elim disjE) (simp_all add: scan_exponent_def ss sp assms(2) digits_val_decimal)
qed

lemma scan_unsigned_Infinity: "scan_unsigned (''Infinity'' @ r) = Some (PosInf, r)"
  by (simp add: scan_unsigned_def)

lemma scan_unsigned_text:
  assumes wf: "well_formed (DecimalLit sg ip fr ex)"
    and en: "ends_literal (DecimalLit sg ip fr ex) r"
  shows "scan_unsigned (literal_text (DecimalLit NoSign ip fr ex) @ r) =
         Some (literal_value (DecimalLit NoSign ip fr ex), r)"
proof -
  define ftxt where "ftxt = (case fr of None \<Rightarrow> [] | Some fp \<Rightarrow> CHR ''.'' # fp)"
  define etxt where "etxt = (case ex of None \<Rightarrow> [] | Some (c, s, ds) \<Rightarrow> c # sign_text s @ ds)"
  define fp where "fp = (case fr of None \<Rightarrow> [] | Some fp \<Rightarrow> fp)"
  define e where "e = (case ex of None \<Rightarrow> 0 | Some (c, s, ds) \<Rightarrow>
      if s = MinusSign then - int (decimal_value ds) else int (decimal_value ds))"
  define rest2 where "rest2 = etxt @ r"
  define rest1 where "rest1 = ftxt @ rest2"
  have lt: "literal_text (DecimalLit NoSign ip fr ex) @ r = ip @ rest1"
    by (simp add: ftxt_def etxt_def rest1_def rest2_def)
  have ipd: "list_all is_digit ip" and fpd: "list_all is_digit fp"
    using wf by (auto simp: fp_def split: option.splits)
  have some: "ip \<noteq> [] \<or> fp \<noteq> []"
    using wf by (auto simp: fp_def split: option.splits)
  have rnd: "r = [] \<or> \<not> is_digit (hd r)"
    using en by (cases r) simp_all
  have r2nd: "rest2 = [] \<or> \<not> is_digit (hd rest2)"
    using wf rnd by (auto simp: rest2_def etxt_def is_digit_def split: option.splits)
  have se: "scan_exponent rest2 = (case ex of None \<Rightarrow> None | Some x \<Rightarrow> Some (e, r))"
    and r2: "ex = None \<Longrightarrow> rest2 = r"
  proof -
    show "ex = None \<Longrightarrow> rest2 = r" by (simp add: rest2_def etxt_def)
    show "scan_exponent rest2 = (case ex of None \<Rightarrow> None | Some x \<Rightarrow> Some (e, r))"
    proof (cases ex)
      case None
      then have "\<not> starts_exponent r" using en by (cases r) simp_all
      then show ?thesis using None by (simp add: rest2_def etxt_def scan_exponent_None_iff)
    next
      case (Some x)
      obtain c s ds where x: "x = (c, s, ds)" by (cases x)
      have "scan_exponent (c # sign_text s @ ds @ r) =
          Some (if s = MinusSign then - int (decimal_value ds) else int (decimal_value ds), r)"
        using wf Some x rnd by (intro scan_exponent_text) simp_all
      then show ?thesis using Some x by (simp add: rest2_def etxt_def e_def)
    qed
  qed
  have sf: "scan_fraction rest1 = (fp, rest2)"
  proof (cases fr)
    case None
    have "rest2 = [] \<or> hd rest2 \<noteq> CHR ''.''"
    proof (cases ex)
      case None
      with \<open>fr = None\<close> en show ?thesis by (cases r) (simp_all add: rest2_def etxt_def)
    next
      case (Some x)
      with wf show ?thesis by (auto simp: rest2_def etxt_def)
    qed
    then show ?thesis using None
      by (cases rest2) (simp_all add: rest1_def ftxt_def fp_def scan_fraction_def)
  next
    case (Some f)
    have "takeWhile is_digit (fp @ rest2) = fp" "dropWhile is_digit (fp @ rest2) = rest2"
      using fpd r2nd by (rule span_digits)+
    then show ?thesis using Some
      by (simp add: rest1_def ftxt_def fp_def scan_fraction_def)
  qed
  have r1nd: "rest1 = [] \<or> \<not> is_digit (hd rest1)"
    using r2nd by (cases fr) (simp_all add: rest1_def ftxt_def is_digit_def)
  have sp: "takeWhile is_digit (ip @ rest1) = ip" "dropWhile is_digit (ip @ rest1) = rest1"
    using ipd r1nd by (rule span_digits)+
  have ninf: "take 8 (ip @ rest1) \<noteq> ''Infinity''"
  proof (cases ip)
    case Nil
    with some wf have "\<exists>f. fr = Some f" by (cases fr) (simp_all add: fp_def)
    then show ?thesis using Nil by (auto simp: rest1_def ftxt_def)
  next
    case (Cons d ds)
    then have "is_digit d" using ipd by simp
    then show ?thesis using Cons digit_not_sign by auto
  qed
  have val: "literal_value (DecimalLit NoSign ip fr ex) =
      fl (of_nat (digits_val (ip @ fp)) * pow10 (e - int (length fp)))"
  proof (cases fr)
    case None
    then show ?thesis by (simp add: fp_def e_def Let_def digits_val_decimal)
  next
    case (Some f)
    then show ?thesis by (simp add: mantissa_value fp_def e_def Let_def)
  qed
  have nn: "\<not> (ip = [] \<and> fp = [])" using some by simp
  define body where "body = ip @ rest1"
  note b = ninf [folded body_def] sp [folded body_def]
  show ?thesis
    unfolding lt val body_def [symmetric]
  proof (cases ex)
    case None
    then have "scan_exponent rest2 = None" "rest2 = r" using se r2 by simp_all
    then show "scan_unsigned body =
        Some (fl (of_nat (digits_val (ip @ fp)) * pow10 (e - int (length fp))), r)"
      using None by (simp add: scan_unsigned_def b sf nn e_def)
  next
    case (Some x)
    then have "scan_exponent rest2 = Some (e, r)" using se by simp
    then show "scan_unsigned body =
        Some (fl (of_nat (digits_val (ip @ fp)) * pow10 (e - int (length fp))), r)"
      by (simp add: scan_unsigned_def b sf nn)
  qed
qed

lemma literal_value_sign:
  "literal_value (DecimalLit sg ip fr ex) =
   (if sg = MinusSign then js_neg (literal_value (DecimalLit NoSign ip fr ex))
    else literal_value (DecimalLit NoSign ip fr ex))"
  by (simp add: Let_def)

lemma literal_value_not_NaN: "literal_value L \<noteq> NaN"
proof (cases L)
  case (InfinityLit sg)
  then show ?thesis by simp
next
  case (DecimalLit sg ip fr ex)
  have "js_neg (fl x) \<noteq> NaN" for x using fl_not_NaN [of x] by (cases "fl x") simp_all
  then show ?thesis using DecimalLit by (simp add: Let_def fl_not_NaN)
qed

lemma unsigned_text_head:
  assumes "well_formed (DecimalLit sg ip fr ex)"
  obtains c u where "literal_text (DecimalLit NoSign ip fr ex) = c # u"
    "is_digit c \<or> c = CHR ''.''"
proof (cases ip)
  case Nil
  with assms obtain fp where "fr = Some fp" by (cases fr) auto
  with Nil show ?thesis by (intro that [of "CHR ''.''"]) auto
next
  case (Cons d ds)
  with assms have "is_digit d" by simp
  with Cons show ?thesis by (intro that [of d]) auto
qed

lemma dot_not_special:
  "c = CHR ''.'' \<or> c = CHR ''I'' \<Longrightarrow> c \<noteq> CHR ''-'' \<and> c \<noteq> CHR ''+'' \<and> \<not> is_space c"
  by (auto simp: is_space_def)

lemma sign_not_space: "c = CHR ''-'' \<or> c = CHR ''+'' \<Longrightarrow> \<not> is_space c"
  by (auto simp: is_space_def)

lemma skip_spaces:
  assumes "list_all is_space ws" and "\<not> is_space c"
  shows "dropWhile is_space (ws @ c # t) = c # t"
  using assms by (induction ws) simp_all

lemma parse_float_signed:
  assumes "scan_unsigned (c # u) = Some (v, r)"
    and "c \<noteq> CHR ''-''" "c \<noteq> CHR ''+''" "\<not> is_space c" and "list_all is_space ws"
  shows "parse_float (ws @ sign_text sg @ c # u) = (if sg = MinusSign then js_neg v else v)"
proof -
  have ns: "\<not> is_space (hd (sign_text sg @ c # u))"
    using assms(4) by (cases sg) (simp_all add: is_space_def)
  obtain x xs where x: "sign_text sg @ c # u = x # xs" by (cases "sign_text sg @ c # u") auto
  with ns have "\<not> is_space x" by simp
  then have "dropWhile is_space (ws @ x # xs) = x # xs"
    using assms(5) by (intro skip_spaces)
  then have d: "dropWhile is_space (ws @ sign_text sg @ c # u) = sign_text sg @ c # u"
    using x by simp
  have s: "scan_sign (sign_text sg @ c # u) = (sg = MinusSign, c # u)"
    using assms(2,3) by (intro scan_sign_text) simp
  show ?thesis by (simp add: parse_float_def d s assms(1))
qed

lemma parse_float_text:
  assumes "well_formed L" and "ends_literal L r" and "list_all is_space ws"
  shows "parse_float (ws @ literal_text L @ r) = literal_value L"
proof (cases L)
  case (InfinityLit sg)
  have "scan_unsigned (CHR ''I'' # ''nfinity'' @ r) = Some (PosInf, r)"
    using scan_unsigned_Infinity [of r] by simp
  then have "parse_float (ws @ sign_text sg @ CHR ''I'' # ''nfinity'' @ r) =
      (if sg = MinusSign then js_neg PosInf else PosInf)"
    using assms(3) by (intro parse_float_signed) (simp_all add: is_space_def)
  then show ?thesis using InfinityLit by simp
next
  case (DecimalLit sg ip fr ex)
  have wf: "well_formed (DecimalLit sg ip fr ex)" using assms(1) DecimalLit by simp
  from wf obtain c u where cu: "literal_text (DecimalLit NoSign ip fr ex) = c # u"
    and c: "is_digit c \<or> c = CHR ''.''"
    by (rule unsigned_text_head)
  have "scan_unsigned (literal_text (DecimalLit NoSign ip fr ex) @ r) =
      Some (literal_value (DecimalLit NoSign ip fr ex), r)"
    using assms(1,2) unfolding DecimalLit by (rule scan_unsigned_text)
  then have su: "scan_unsigned (c # u @ r) = Some (literal_value (DecimalLit NoSign ip fr ex), r)"
    unfolding cu by (simp only: append_Cons)
  have "c \<noteq> CHR ''-'' \<and> c \<noteq> CHR ''+'' \<and> \<not> is_space c"
    using c digit_not_sign dot_not_special by blast
  then have "parse_float (ws @ sign_text sg @ c # u @ r) =
      (if sg = MinusSign then js_neg (literal_value (DecimalLit NoSign ip fr ex))
       else literal_value (DecimalLit NoSign ip fr ex))"
    using su assms(3) by (intro parse_float_signed) simp_all
  moreover have "literal_text L = sign_text sg @ c # u"
    using DecimalLit cu by simp
  ultimately show ?thesis
    unfolding DecimalLit literal_value_sign [of sg] by simp
qed

text \<open>
  Conversely, every string that \<^verbatim>\<open>parseFloat\<close> reads as a Number is white space, a
  well-formed literal and a rest that cannot lengthen it.
\<close>

lemma scan_sign_decompose:
  obtains sg where "s = sign_text sg @ snd (scan_sign s)"
proof (cases s)
  case Nil
  then show ?thesis by (intro that [of NoSign]) (simp add: scan_sign_def)
next
  case (Cons c t)
  consider "c = CHR ''-''" | "c = CHR ''+''" | "c \<noteq> CHR ''-''" "c \<noteq> CHR ''+''" by blast
  then show ?thesis
  proof cases
    case 1
    with Cons show ?thesis by (intro that [of MinusSign]) (simp add: scan_sign_def)
  next
    case 2
    with Cons show ?thesis by (intro that [of PlusSign]) (simp add: scan_sign_def)
  next
    case 3
    with Cons show ?thesis by (intro that [of NoSign]) (simp add: scan_sign_def)
  qed
qed

lemma digits_split:
  "xs = takeWhile is_digit xs @ dropWhile is_digit xs"
  "list_all is_digit (takeWhile is_digit xs)"
  "dropWhile is_digit xs = [] \<or> \<not> is_digit (hd (dropWhile is_digit xs))"
proof -
  show "xs = takeWhile is_digit xs @ dropWhile is_digit xs" by simp
  show "list_all is_digit (takeWhile is_digit xs)"
    by (auto simp: list_all_iff dest: set_takeWhileD)
  show "dropWhile is_digit xs = [] \<or> \<not> is_digit (hd (dropWhile is_digit xs))"
    using hd_dropWhile [of is_digit xs] by blast
qed

lemma scan_exponent_Some:
  assumes "scan_exponent r2 = Some (e, r3)"
  obtains c s ds where "r2 = c # sign_text s @ ds @ r3" "c = CHR ''e'' \<or> c = CHR ''E''"
    "ds \<noteq> []" "list_all is_digit ds" "r3 = [] \<or> \<not> is_digit (hd r3)"
proof -
  from assms obtain c t where r2: "r2 = c # t" and c: "c = CHR ''e'' \<or> c = CHR ''E''"
    by (cases r2) (auto simp: scan_exponent_def split: if_splits)
  obtain s where s: "t = sign_text s @ snd (scan_sign t)" by (rule scan_sign_decompose)
  define u where "u = snd (scan_sign t)"
  from assms r2 c have ds: "takeWhile is_digit u \<noteq> []" and r3: "r3 = dropWhile is_digit u"
    by (auto simp: scan_exponent_def Let_def u_def split: if_splits prod.splits)
  have "r2 = c # sign_text s @ takeWhile is_digit u @ r3"
    using r2 s r3 by (simp add: u_def)
  then show ?thesis
    using c ds digits_split(2) [of u] digits_split(3) [of u] r3 by (intro that) simp_all
qed

lemma parse_float_reads_literal:
  assumes "parse_float s \<noteq> NaN"
  obtains ws L r where "s = ws @ literal_text L @ r" "list_all is_space ws"
    "well_formed L" "ends_literal L r"
proof -
  define ws where "ws = takeWhile is_space s"
  define t where "t = dropWhile is_space s"
  have s: "s = ws @ t" by (simp add: ws_def t_def)
  have wsp: "list_all is_space ws" by (auto simp: ws_def list_all_iff dest: set_takeWhileD)
  obtain sg where sg: "t = sign_text sg @ snd (scan_sign t)" by (rule scan_sign_decompose)
  define u where "u = snd (scan_sign t)"
  from assms obtain v rest where su: "scan_unsigned u = Some (v, rest)"
    by (auto simp: parse_float_def t_def u_def split: prod.splits option.splits)
  show ?thesis
  proof (cases "take 8 u = ''Infinity''")
    case True
    then have "u = ''Infinity'' @ drop 8 u" by (metis append_take_drop_id)
    then have "s = ws @ literal_text (InfinityLit sg) @ drop 8 u"
      using s sg by (simp add: u_def)
    then show ?thesis using wsp by (rule that) simp_all
  next
    case False
    define ip where "ip = takeWhile is_digit u"
    define r1 where "r1 = dropWhile is_digit u"
    obtain fp r2 where sf: "scan_fraction r1 = (fp, r2)" by (cases "scan_fraction r1")
    define fr where "fr = (if r1 \<noteq> [] \<and> hd r1 = CHR ''.'' then Some fp else None)"
    have u: "u = ip @ r1" by (simp add: ip_def r1_def)
    have ipd: "list_all is_digit ip" unfolding ip_def by (rule digits_split(2))
    have r1nd: "r1 = [] \<or> \<not> is_digit (hd r1)" unfolding r1_def by (rule digits_split(3))
    have r1: "r1 = (case fr of None \<Rightarrow> [] | Some fp \<Rightarrow> CHR ''.'' # fp) @ r2"
      and fpd: "list_all is_digit fp"
      and r2nd: "r2 = [] \<or> \<not> is_digit (hd r2)"
      and nodot: "fr = None \<Longrightarrow> r2 = [] \<or> hd r2 \<noteq> CHR ''.''"
      and fpn: "fr = None \<Longrightarrow> fp = []"
    proof -
      show "r1 = (case fr of None \<Rightarrow> [] | Some fp \<Rightarrow> CHR ''.'' # fp) @ r2"
        using sf by (cases r1) (auto simp: fr_def scan_fraction_def split: if_splits)
      show "list_all is_digit fp"
        using sf digits_split(2) by (cases r1) (auto simp: scan_fraction_def split: if_splits)
      show "r2 = [] \<or> \<not> is_digit (hd r2)"
      proof (cases "r1 \<noteq> [] \<and> hd r1 = CHR ''.''")
        case True
        then have "r2 = dropWhile is_digit (tl r1)"
          using sf by (cases r1) (auto simp: scan_fraction_def)
        then show ?thesis using hd_dropWhile [of is_digit "tl r1"] by blast
      next
        case False
        then have "r2 = r1"
          using sf by (cases r1) (auto simp: scan_fraction_def split: if_splits)
        then show ?thesis using r1nd by simp
      qed
      show "fr = None \<Longrightarrow> r2 = [] \<or> hd r2 \<noteq> CHR ''.''"
        using sf by (cases r1) (auto simp: fr_def scan_fraction_def split: if_splits)
      show "fr = None \<Longrightarrow> fp = []"
        using sf by (cases r1) (auto simp: fr_def scan_fraction_def split: if_splits)
    qed
    have frs: "fr = None \<or> fr = Some fp" by (simp add: fr_def)
    from su False sf have some: "ip \<noteq> [] \<or> fp \<noteq> []"
      by (auto simp: scan_unsigned_def Let_def ip_def r1_def split: if_splits)
    show ?thesis
    proof (cases "scan_exponent r2")
      case None
      let ?L = "DecimalLit sg ip fr None"
      have "s = ws @ literal_text ?L @ r2" using s sg u r1 by (simp add: u_def)
      moreover have "well_formed ?L"
        using ipd fpd some fpn frs by (cases fr) simp_all
      moreover have "ends_literal ?L r2"
        using r2nd nodot None by (cases r2; cases fr) (simp_all add: scan_exponent_None_iff)
      ultimately show ?thesis using wsp by (intro that [of ws ?L r2])
    next
      case (Some a)
      obtain e r3 where a: "a = (e, r3)" by (cases a)
      with Some have "scan_exponent r2 = Some (e, r3)" by simp
      then obtain c x ds where x: "r2 = c # sign_text x @ ds @ r3"
        "c = CHR ''e'' \<or> c = CHR ''E''" "ds \<noteq> []" "list_all is_digit ds"
        "r3 = [] \<or> \<not> is_digit (hd r3)"
        by (rule scan_exponent_Some)
      let ?L = "DecimalLit sg ip fr (Some (c, x, ds))"
      have "s = ws @ literal_text ?L @ r3" using s sg u r1 x(1) by (simp add: u_def)
      moreover have "well_formed ?L"
        using ipd fpd some fpn frs x by (cases fr) simp_all
      moreover have "ends_literal ?L r3"
        using x(5) by (cases r3) simp_all
      ultimately show ?thesis using wsp by (intro that [of ws ?L r3])
    qed
  qed
qed

lemmas scan_eval =
  parse_float_def scan_sign_def scan_unsigned_def scan_fraction_def scan_exponent_def
  is_space_def is_digit_def digits_val_def pow10_def Let_def

lemma parse_float_tenth: "parse_float ''0.1'' = Fin (3602879701896397 / 36028797018963968)"
  by (simp add: scan_eval fl_tenth)

lemma parse_float_fifth: "parse_float ''0.2'' = Fin (3602879701896397 / 18014398509481984)"
  by (simp add: scan_eval fl_fifth)

lemma parse_float_Infinity: "parse_float ''Infinity'' = PosInf"
  by (simp add: scan_eval)

lemma literal_value_2: "literal_value (DecimalLit NoSign ''2'' None None) = Fin 2"
  by (simp add: pow10_def fl_numeral)

text \<open>
  The conversions of the handler throw nothing but a TypeError.
\<close>

lemma js_String_throws:
  "js_String P v = Inl e \<Longrightarrow> e = TypeError"
  "join_elems P vs = Inl e \<Longrightarrow> e = TypeError"
  by (induction P v and P vs arbitrary: e and e rule: js_String_join_elems.induct)
     (auto split: if_splits sum.splits)

section \<open>Properties of POST /api/bills\<close>

subsection \<open>The outcomes of a request\<close>

text \<open>
  A request is answered with 201 and the validated bill appended to the collection, or
  with 400 and the collection as it was.
\<close>

lemma create_bill_outcome:
  "(\<exists>name mobile t morning evening rate.
      js_String P (get_field rawBody ''Name'') = Inr name \<and>
      js_String P (get_field rawBody ''Mobile'') = Inr mobile \<and>
      new_Date P (get_field rawBody ''Date'') = Inr (Some t) \<and>
      parseFloat P (get_field rawBody ''Morning'') = Inr morning \<and>
      parseFloat P (get_field rawBody ''Evening'') = Inr evening \<and>
      parseFloat P (get_field rawBody ''Rate'') = Inr rate \<and>
      validate (new_Bill oid now name mobile (Some t) morning evening rate) = [] \<and>
      oid \<notin> set (map ident st) \<and>
      create_bill P oid now rawBody st =
        (Response 201 (BillJson (stored (new_Bill oid now name mobile (Some t) morning evening rate) t)),
         st @ [stored (new_Bill oid now name mobile (Some t) morning evening rate) t]))
   \<or> (\<exists>pl. create_bill P oid now rawBody st = (Response 400 pl, st))"
  by (auto simp: create_bill_def create_catch_def save_def new_Bill_def
           split: sum.splits list.splits option.splits)

lemma create_bill_rejected:
  assumes "status (fst (create_bill P oid now rawBody st)) \<noteq> 201"
  shows "status (fst (create_bill P oid now rawBody st)) = 400 \<and>
         snd (create_bill P oid now rawBody st) = st"
  using create_bill_outcome [of P rawBody oid now st] assms by auto

lemma create_bill_accepted:
  assumes "status (fst (create_bill P oid now rawBody st)) = 201"
  obtains name mobile t morning evening rate where
    "js_String P (get_field rawBody ''Name'') = Inr name"
    "js_String P (get_field rawBody ''Mobile'') = Inr mobile"
    "new_Date P (get_field rawBody ''Date'') = Inr (Some t)"
    "parseFloat P (get_field rawBody ''Morning'') = Inr morning"
    "parseFloat P (get_field rawBody ''Evening'') = Inr evening"
    "parseFloat P (get_field rawBody ''Rate'') = Inr rate"
    "validate (new_Bill oid now name mobile (Some t) morning evening rate) = []"
  using create_bill_outcome [of P rawBody oid now st] assms by auto

lemma validate_Nil_iff:
  "validate d = [] \<longleftrightarrow>
     doc_Name d \<noteq> [] \<and> mobile_validator (doc_Mobile d) \<and> doc_Date d \<noteq> None \<and>
     js_ge (doc_Morning d) (Fin 0) \<and> js_ge (doc_Evening d) (Fin 0) \<and>
     js_ge (doc_Rate d) min_Rate \<and> \<not> isNaN (doc_TotalLiters d) \<and> \<not> isNaN (doc_TotalAmount d)"
  by (auto simp: validate_def mobile_validator_def js_ge_def isNaN_def)

lemma create_bill_needs_valid_mobile:
  assumes "status (fst (create_bill P oid now rawBody st)) = 201"
  shows "\<exists>m. js_String P (get_field rawBody ''Mobile'') = Inr m \<and> mobile_validator m"
proof -
  from assms obtain name mobile t morning evening rate where
    "js_String P (get_field rawBody ''Mobile'') = Inr mobile"
    "validate (new_Bill oid now name mobile (Some t) morning evening rate) = []"
    by (rule create_bill_accepted)
  then have "js_String P (get_field rawBody ''Mobile'') = Inr mobile \<and> mobile_validator mobile"
    by (simp add: validate_Nil_iff new_Bill_def)
  then show ?thesis by blast
qed

lemma js_le_zero_below_min_Rate: "js_le r (Fin 0) \<Longrightarrow> \<not> js_ge r min_Rate"
  by (cases r) (simp_all add: js_le_def js_ge_def min_Rate_value)

lemma js_less_zero_not_ge: "js_less m (Fin 0) \<Longrightarrow> \<not> js_ge m (Fin 0)"
  by (simp add: js_ge_def)

text \<open>
  The handler reads six fields of the body, each through one conversion.
\<close>

lemma create_bill_conversions:
  assumes "js_String P (get_field b1 ''Name'') = js_String P (get_field b2 ''Name'')"
    "js_String P (get_field b1 ''Mobile'') = js_String P (get_field b2 ''Mobile'')"
    "new_Date P (get_field b1 ''Date'') = new_Date P (get_field b2 ''Date'')"
    "parseFloat P (get_field b1 ''Morning'') = parseFloat P (get_field b2 ''Morning'')"
    "parseFloat P (get_field b1 ''Evening'') = parseFloat P (get_field b2 ''Evening'')"
    "parseFloat P (get_field b1 ''Rate'') = parseFloat P (get_field b2 ''Rate'')"
  shows "create_bill P oid now b1 st = create_bill P oid now b2 st"
  unfolding create_bill_def by (simp only: assms)

lemma create_bill_reads_six_fields:
  assumes "\<And>k. k \<in> set [''Name'', ''Mobile'', ''Date'', ''Morning'', ''Evening'', ''Rate'']
             \<Longrightarrow> b1 k = b2 k"
  shows "create_bill P oid now b1 st = create_bill P oid now b2 st"
proof -
  have "get_field b1 ''Name'' = get_field b2 ''Name''"
    "get_field b1 ''Mobile'' = get_field b2 ''Mobile''"
    "get_field b1 ''Date'' = get_field b2 ''Date''"
    "get_field b1 ''Morning'' = get_field b2 ''Morning''"
    "get_field b1 ''Evening'' = get_field b2 ''Evening''"
    "get_field b1 ''Rate'' = get_field b2 ''Rate''"
    by (simp_all add: get_field_def assms)
  then show ?thesis unfolding create_bill_def by (simp only:)
qed

text \<open>
  The identifiers of the collection stay pairwise distinct.
\<close>

lemma create_bill_distinct:
  assumes "distinct (map ident st)"
  shows "distinct (map ident (snd (create_bill P oid now rawBody st)))"
  using create_bill_outcome [of P rawBody oid now st] assms
  by (auto simp: stored_def new_Bill_def)

subsection \<open>The example of the specification\<close>

lemma example_dateParse_2024: "example_dateParse ''2024-01-05'' = Some 1704412800000"
  by (simp add: example_dateParse_def is_digit_def digits_val_def days_from_civil_def Let_def)

lemma example_dateParse_2023: "example_dateParse ''2023-02-29'' = Some 1677628800000"
  by (simp add: example_dateParse_def is_digit_def digits_val_def days_from_civil_def Let_def)

text \<open>
  A document with an invalid date, a mobile number of five digits and a rate of 0: the
  date is reported first, then the other two paths in the order of the schema.
\<close>

lemma validate_order:
  "validate (new_Bill i n ''Asha'' ''12345'' None (Fin 2) (Fin (3 / 2)) (Fin 0)) =
     [''Date'', ''Mobile'', ''Rate'']"
  by (simp add: validate_def new_Bill_def mobile_validator_def isNaN_def js_ge_def
        min_Rate_value fl_7_2 fl_0)

lemma validate_asha:
  "validate (new_Bill i n ''Asha'' ''9876543210'' (Some t) (Fin 2) (Fin (3 / 2)) (Fin 50)) = []"
  by (simp add: validate_def new_Bill_def mobile_validator_def is_digit_def isNaN_def js_ge_def
        min_Rate_value fl_7_2 fl_numeral)

lemma create_asha:
  "create_bill example_platform ''65a1b2c3d4e5f60718293a4b'' 1704450000000 asha_body [] =
     (Response 201 (BillJson asha_bill), [asha_bill])"
  by (simp add: create_bill_def asha_body_def get_field_def example_platform_def new_Date_def
        parseFloat_def example_dateParse_2024 isNaN_def not_Date_def save_def validate_asha,
      simp add: stored_def new_Bill_def asha_bill_def fl_7_2 fl_numeral)

lemmas create_eval =
  create_bill_def asha_body_def get_field_def example_platform_def new_Date_def
  parseFloat_def example_dateParse_2024 isNaN_def not_Date_def save_def

lemmas validate_eval =
  validate_def new_Bill_def mobile_validator_def is_digit_def isNaN_def js_ge_def js_le_def
  min_Rate_value fl_7_2 fl_numeral create_catch_def stored_def

subsection \<open>Derived totals\<close>

lemma create_tenth:
  "create_bill example_platform ''65a1b2c3d4e5f60718293a4b'' 1704450000000 tenth_body [] =
     (Response 201 (BillJson tenth_bill), [tenth_bill])"
  by (simp add: create_bill_def tenth_body_def get_field_def example_platform_def new_Date_def
        parseFloat_def example_dateParse_2024 isNaN_def not_Date_def save_def
        parse_float_tenth parse_float_fifth,
      simp add: validate_def new_Bill_def mobile_validator_def is_digit_def isNaN_def js_ge_def
        min_Rate_value fl_tenth_plus_fifth fl_times_three,
      simp add: stored_def new_Bill_def tenth_bill_def fl_tenth_plus_fifth fl_times_three)

lemma create_infinity:
  "create_bill example_platform ''65a1b2c3d4e5f60718293a4b'' 1704450000000
     (asha_body(''Morning'' \<mapsto> JStr ''Infinity'')) [] =
   (Response 201 (BillJson (asha_bill\<lparr>Morning := PosInf, TotalLiters := PosInf, TotalAmount := PosInf\<rparr>)),
    [asha_bill\<lparr>Morning := PosInf, TotalLiters := PosInf, TotalAmount := PosInf\<rparr>])"
  by (simp add: create_eval parse_float_Infinity, simp add: validate_eval, simp add: asha_bill_def)

text \<open>
  Claim C1, amended. When a create request succeeds (status 201), the bill in the
  response is the one appended to the collection; its \<open>Morning\<close>, \<open>Evening\<close> and
  \<open>Rate\<close> are the converted request values, which passed the minimum checks. Its
  \<open>TotalLiters\<close> is the exact sum of \<open>Morning\<close> and \<open>Evening\<close> rounded to the nearest
  Number, and its \<open>TotalAmount\<close> is the exact product of that \<open>TotalLiters\<close> and
  \<open>Rate\<close> rounded to the nearest Number; a total is infinite when one of its operands
  is; a finite total differs from the exact sum or product by at most the fraction
  \<open>2^-53\<close> of it (or by \<open>2^-1075\<close>). Whatever the request carries under \<open>TotalLiters\<close>
  and \<open>TotalAmount\<close> has no effect on the outcome.
\<close>

theorem create_totals:
  assumes "status (fst (create_bill P oid now rawBody st)) = 201"
  shows "\<exists>b. create_bill P oid now rawBody st = (Response 201 (BillJson b), st @ [b]) \<and>
           parseFloat P (get_field rawBody ''Morning'') = Inr (Morning b) \<and>
           parseFloat P (get_field rawBody ''Evening'') = Inr (Evening b) \<and>
           parseFloat P (get_field rawBody ''Rate'') = Inr (Rate b) \<and>
           js_ge (Morning b) (Fin 0) \<and> js_ge (Evening b) (Fin 0) \<and> js_ge (Rate b) min_Rate \<and>
           (\<forall>m e. Morning b = Fin m \<and> Evening b = Fin e \<longrightarrow> TotalLiters b = fl (m + e)) \<and>
           (\<forall>l r. TotalLiters b = Fin l \<and> Rate b = Fin r \<longrightarrow> TotalAmount b = fl (l * r)) \<and>
           (Morning b = PosInf \<or> Evening b = PosInf \<longrightarrow> TotalLiters b = PosInf) \<and>
           (TotalLiters b = PosInf \<or> Rate b = PosInf \<longrightarrow> TotalAmount b = PosInf) \<and>
           (\<forall>m e l. Morning b = Fin m \<and> Evening b = Fin e \<and> TotalLiters b = Fin l \<longrightarrow>
              \<bar>l - (m + e)\<bar> \<le> max (\<bar>m + e\<bar> / 2 ^ 53) (1 / 2 ^ 1075)) \<and>
           (\<forall>l r a. TotalLiters b = Fin l \<and> Rate b = Fin r \<and> TotalAmount b = Fin a \<longrightarrow>
              \<bar>a - l * r\<bar> \<le> max (\<bar>l * r\<bar> / 2 ^ 53) (1 / 2 ^ 1075)) \<and>
           create_bill P oid now (rawBody(''TotalLiters'' := x, ''TotalAmount'' := y)) st =
             create_bill P oid now rawBody st"
proof -
  have indep: "create_bill P oid now (rawBody(''TotalLiters'' := x, ''TotalAmount'' := y)) st =
      create_bill P oid now rawBody st"
    by (rule create_bill_reads_six_fields) auto
  from create_bill_outcome [of P rawBody oid now st] assms
  obtain name mobile t morning evening rate where
    m: "parseFloat P (get_field rawBody ''Morning'') = Inr morning" and
    e: "parseFloat P (get_field rawBody ''Evening'') = Inr evening" and
    r: "parseFloat P (get_field rawBody ''Rate'') = Inr rate" and
    v: "validate (new_Bill oid now name mobile (Some t) morning evening rate) = []" and
    c: "create_bill P oid now rawBody st =
        (Response 201 (BillJson (stored (new_Bill oid now name mobile (Some t) morning evening rate) t)),
         st @ [stored (new_Bill oid now name mobile (Some t) morning evening rate) t])"
    by auto
  let ?b = "stored (new_Bill oid now name mobile (Some t) morning evening rate) t"
  have f: "Morning ?b = morning" "Evening ?b = evening" "Rate ?b = rate"
    "TotalLiters ?b = js_add morning evening"
    "TotalAmount ?b = js_mul (js_add morning evening) rate"
    by (simp_all add: stored_def new_Bill_def)
  have g: "js_ge morning (Fin 0)" "js_ge evening (Fin 0)" "js_ge rate min_Rate"
    and n: "js_mul (js_add morning evening) rate \<noteq> NaN"
    using v by (simp_all add: validate_Nil_iff new_Bill_def isNaN_def)
  have l1: "js_add morning evening = fl (m' + e')"
    if "morning = Fin m' \<and> evening = Fin e'" for m' e'
    using that by simp
  have l2: "js_mul (js_add morning evening) rate = fl (l * r')"
    if "js_add morning evening = Fin l \<and> rate = Fin r'" for l r'
    using that by simp
  have l3: "js_add morning evening = PosInf" if "morning = PosInf \<or> evening = PosInf"
    using g(1,2) that by (rule js_add_nonneg(2))
  have l4: "js_mul (js_add morning evening) rate = PosInf"
    if "js_add morning evening = PosInf \<or> rate = PosInf"
    using js_add_nonneg(1) [OF g(1,2)] min_Rate_ge_zero [OF g(3)] n that
    by (rule js_mul_PosInf)
  have l5: "\<bar>l - (m' + e')\<bar> \<le> max (\<bar>m' + e'\<bar> / 2 ^ 53) (1 / 2 ^ 1075)"
    if "morning = Fin m' \<and> evening = Fin e' \<and> js_add morning evening = Fin l" for m' e' l
    using that by (intro fl_error) auto
  have l6: "\<bar>a - l * r'\<bar> \<le> max (\<bar>l * r'\<bar> / 2 ^ 53) (1 / 2 ^ 1075)"
    if "js_add morning evening = Fin l \<and> rate = Fin r' \<and>
        js_mul (js_add morning evening) rate = Fin a" for l r' a
    using that by (intro fl_error) auto
  show ?thesis
    apply (rule exI [of _ ?b])
    apply (simp only: c m e r f g indep simp_thms)
    using l1 l2 l3 l4 l5 l6 apply blast
    done
qed

text \<open>
  The example of the specification, sent with a \<open>TotalLiters\<close> of its own: the stored
  totals are 3.5 and 175, the exact sum and product, which are Numbers. And the
  example with the text \<^verbatim>\<open>Infinity\<close> as its \<open>Morning\<close>: both totals are infinite.
\<close>

theorem create_totals_witness:
  "status (fst (create_bill example_platform ''65a1b2c3d4e5f60718293a4b'' 1704450000000
      (asha_body(''TotalLiters'' \<mapsto> JNum (Fin 0))) [])) = 201 \<and>
   (\<exists>b. create_bill example_platform ''65a1b2c3d4e5f60718293a4b'' 1704450000000
           (asha_body(''TotalLiters'' \<mapsto> JNum (Fin 0))) [] = (Response 201 (BillJson b), [b]) \<and>
        Morning b = Fin 2 \<and> Evening b = Fin (3 / 2) \<and> Rate b = Fin 50 \<and>
        TotalLiters b = Fin (7 / 2) \<and> TotalAmount b = Fin 175 \<and>
        fl (2 + 3 / 2) = Fin (7 / 2) \<and> fl (7 / 2 * 50) = Fin 175) \<and>
   status (fst (create_bill example_platform ''65a1b2c3d4e5f60718293a4b'' 1704450000000
      (asha_body(''Morning'' \<mapsto> JStr ''Infinity'')) [])) = 201 \<and>
   (\<exists>b. create_bill example_platform ''65a1b2c3d4e5f60718293a4b'' 1704450000000
           (asha_body(''Morning'' \<mapsto> JStr ''Infinity'')) [] = (Response 201 (BillJson b), [b]) \<and>
        Morning b = PosInf \<and> TotalLiters b = PosInf \<and> TotalAmount b = PosInf)"
proof -
  have same: "create_bill example_platform ''65a1b2c3d4e5f60718293a4b'' 1704450000000
      (asha_body(''TotalLiters'' \<mapsto> JNum (Fin 0))) [] = (Response 201 (BillJson asha_bill), [asha_bill])"
    using create_asha
    by (subst create_bill_reads_six_fields [of _ asha_body]) auto
  then have s: "status (fst (create_bill example_platform ''65a1b2c3d4e5f60718293a4b'' 1704450000000
      (asha_body(''TotalLiters'' \<mapsto> JNum (Fin 0))) [])) = 201"
    by simp
  from create_totals [OF s] obtain b where
    b: "create_bill example_platform ''65a1b2c3d4e5f60718293a4b'' 1704450000000
          (asha_body(''TotalLiters'' \<mapsto> JNum (Fin 0))) [] = (Response 201 (BillJson b), [] @ [b])"
    and l: "\<forall>m e. Morning b = Fin m \<and> Evening b = Fin e \<longrightarrow> TotalLiters b = fl (m + e)"
    and a: "\<forall>l r. TotalLiters b = Fin l \<and> Rate b = Fin r \<longrightarrow> TotalAmount b = fl (l * r)"
    by blast
  from b same have eq: "b = asha_bill" by simp
  have v: "Morning b = Fin 2" "Evening b = Fin (3 / 2)" "Rate b = Fin 50"
    "TotalLiters b = Fin (7 / 2)" "TotalAmount b = Fin 175"
    by (simp_all add: eq asha_bill_def)
  from l v have "fl (2 + 3 / 2) = Fin (7 / 2)" by metis
  moreover from a v have "fl (7 / 2 * 50) = Fin 175" by metis
  ultimately have first: "\<exists>b. create_bill example_platform ''65a1b2c3d4e5f60718293a4b'' 1704450000000
           (asha_body(''TotalLiters'' \<mapsto> JNum (Fin 0))) [] = (Response 201 (BillJson b), [b]) \<and>
        Morning b = Fin 2 \<and> Evening b = Fin (3 / 2) \<and> Rate b = Fin 50 \<and>
        TotalLiters b = Fin (7 / 2) \<and> TotalAmount b = Fin 175 \<and>
        fl (2 + 3 / 2) = Fin (7 / 2) \<and> fl (7 / 2 * 50) = Fin 175"
    using b v by auto
  have s': "status (fst (create_bill example_platform ''65a1b2c3d4e5f60718293a4b'' 1704450000000
      (asha_body(''Morning'' \<mapsto> JStr ''Infinity'')) [])) = 201"
    by (simp add: create_infinity)
  from create_totals [OF s'] obtain c where
    c: "create_bill example_platform ''65a1b2c3d4e5f60718293a4b'' 1704450000000
          (asha_body(''Morning'' \<mapsto> JStr ''Infinity'')) [] = (Response 201 (BillJson c), [] @ [c])"
    and li: "Morning c = PosInf \<or> Evening c = PosInf \<longrightarrow> TotalLiters c = PosInf"
    and ai: "TotalLiters c = PosInf \<or> Rate c = PosInf \<longrightarrow> TotalAmount c = PosInf"
    by blast
  from c have "Morning c = PosInf" by (auto simp: create_infinity)
  with li ai have "Morning c = PosInf \<and> TotalLiters c = PosInf \<and> TotalAmount c = PosInf"
    by simp
  with c have second: "\<exists>b. create_bill example_platform ''65a1b2c3d4e5f60718293a4b'' 1704450000000
           (asha_body(''Morning'' \<mapsto> JStr ''Infinity'')) [] = (Response 201 (BillJson b), [b]) \<and>
        Morning b = PosInf \<and> TotalLiters b = PosInf \<and> TotalAmount b = PosInf"
    by auto
  from s first s' second show ?thesis by blast
qed

text \<open>
  Claim C1 as stated fails: the totals are not the exact sum and product. For the
  quantities \<^verbatim>\<open>0.1\<close> and \<^verbatim>\<open>0.2\<close> the request succeeds, and the stored \<open>TotalLiters\<close>
  is not the sum of the stored \<open>Morning\<close> and \<open>Evening\<close>: it is the Number nearest to
  that sum.
\<close>

theorem totals_are_rounded:
  "create_bill example_platform ''65a1b2c3d4e5f60718293a4b'' 1704450000000 tenth_body [] =
     (Response 201 (BillJson tenth_bill), [tenth_bill]) \<and>
   Morning tenth_bill = Fin (3602879701896397 / 36028797018963968) \<and>
   Evening tenth_bill = Fin (3602879701896397 / 18014398509481984) \<and>
   TotalLiters tenth_bill \<noteq>
     Fin (3602879701896397 / 36028797018963968 + 3602879701896397 / 18014398509481984)"
  by (simp add: create_tenth) (simp add: tenth_bill_def)

subsection \<open>Empty and absent names and mobile numbers\<close>

text \<open>
  Claim C2 asks that a request whose \<open>Name\<close> or \<open>Mobile\<close> is empty or absent be
  rejected with status 400 and nothing stored. An empty name is rejected by the
  handler's own check, and an empty or absent mobile number is rejected (the absent one
  converts to the text \<^verbatim>\<open>undefined\<close>, which the validator of the schema refuses).
\<close>

lemma create_rejects_empty_Name:
  assumes "get_field rawBody ''Name'' = JStr []"
  shows "status (fst (create_bill P oid now rawBody st)) = 400 \<and>
         snd (create_bill P oid now rawBody st) = st"
  using assms
  by (auto simp: create_bill_def create_catch_def split: sum.splits)

lemma create_rejects_empty_or_absent_Mobile:
  assumes "get_field rawBody ''Mobile'' = JStr [] \<or> get_field rawBody ''Mobile'' = JUndefined"
  shows "status (fst (create_bill P oid now rawBody st)) = 400 \<and>
         snd (create_bill P oid now rawBody st) = st"
proof (rule create_bill_rejected, rule notI)
  assume "status (fst (create_bill P oid now rawBody st)) = 201"
  then have "\<exists>m. js_String P (get_field rawBody ''Mobile'') = Inr m \<and> mobile_validator m"
    by (rule create_bill_needs_valid_mobile)
  with assms show False by (auto simp: mobile_validator_def)
qed

text \<open>
  Claim C2 fails for an absent name. \<^verbatim>\<open>String(undefined)\<close> is the non-empty text
  \<^verbatim>\<open>undefined\<close>, so the check \<^verbatim>\<open>!name\<close> under the comment
  \<^verbatim>\<open>Validate all required fields exist\<close> passes, and so does \<open>required\<close> of the schema:
  the example request without its \<open>Name\<close> is answered with 201 and a bill named
  \<^verbatim>\<open>undefined\<close> is stored.
\<close>

theorem create_absent_Name_accepted:
  "create_bill example_platform ''65a1b2c3d4e5f60718293a4b'' 1704450000000
     (asha_body(''Name'' := None)) [] =
   (Response 201 (BillJson (asha_bill\<lparr>Name := ''undefined''\<rparr>)),
    [asha_bill\<lparr>Name := ''undefined''\<rparr>])"
  by (simp add: create_eval, simp add: validate_eval, simp add: asha_bill_def)

subsection \<open>Mobile numbers\<close>

text \<open>
  Claim C6. A create request whose \<open>Mobile\<close> value does not convert to a text of
  exactly ten digits (the test \<^verbatim>\<open>/^\d{10}$/\<close>) is answered with status 400 and the
  collection is unchanged.
\<close>

theorem create_rejects_bad_mobile:
  assumes "\<not> (\<exists>m. js_String P (get_field rawBody ''Mobile'') = Inr m \<and> mobile_validator m)"
  shows "status (fst (create_bill P oid now rawBody st)) = 400 \<and>
         snd (create_bill P oid now rawBody st) = st"
proof (rule create_bill_rejected, rule notI)
  assume "status (fst (create_bill P oid now rawBody st)) = 201"
  then have "\<exists>m. js_String P (get_field rawBody ''Mobile'') = Inr m \<and> mobile_validator m"
    by (rule create_bill_needs_valid_mobile)
  with assms show False by contradiction
qed

text \<open>
  A mobile number of five digits.
\<close>

theorem create_rejects_bad_mobile_witness:
  "\<not> (\<exists>m. js_String example_platform
           (get_field (asha_body(''Mobile'' \<mapsto> JStr ''12345'')) ''Mobile'') = Inr m \<and>
         mobile_validator m) \<and>
   create_bill example_platform ''65a1b2c3d4e5f60718293a4c'' 1704450000001
     (asha_body(''Mobile'' \<mapsto> JStr ''12345'')) [asha_bill] =
     (Response 400 (ErrorOf (ValidationError [''Mobile''])), [asha_bill])"
proof -
  have h: "\<not> (\<exists>m. js_String example_platform
           (get_field (asha_body(''Mobile'' \<mapsto> JStr ''12345'')) ''Mobile'') = Inr m \<and>
         mobile_validator m)"
    by (simp add: get_field_def mobile_validator_def)
  have "create_bill example_platform ''65a1b2c3d4e5f60718293a4c'' 1704450000001
     (asha_body(''Mobile'' \<mapsto> JStr ''12345'')) [asha_bill] =
     (Response 400 (ErrorOf (ValidationError [''Mobile''])), [asha_bill])"
    by (simp add: create_eval, simp add: validate_eval)
  with create_rejects_bad_mobile [OF h] h show ?thesis by simp
qed

subsection \<open>Minimum values\<close>

text \<open>
  Claim C7. A create request whose \<open>Rate\<close> converts to a Number that is at most 0, or
  whose \<open>Morning\<close> or \<open>Evening\<close> converts to a Number below 0, is answered with
  status 400 and the collection is unchanged.
\<close>

theorem create_rejects_low_numbers:
  assumes "(\<exists>r. parseFloat P (get_field rawBody ''Rate'') = Inr r \<and> js_le r (Fin 0)) \<or>
           (\<exists>m. parseFloat P (get_field rawBody ''Morning'') = Inr m \<and> js_less m (Fin 0)) \<or>
           (\<exists>e. parseFloat P (get_field rawBody ''Evening'') = Inr e \<and> js_less e (Fin 0))"
  shows "status (fst (create_bill P oid now rawBody st)) = 400 \<and>
         snd (create_bill P oid now rawBody st) = st"
proof (rule create_bill_rejected, rule notI)
  assume "status (fst (create_bill P oid now rawBody st)) = 201"
  then obtain name mobile t morning evening rate where
    p: "parseFloat P (get_field rawBody ''Morning'') = Inr morning"
       "parseFloat P (get_field rawBody ''Evening'') = Inr evening"
       "parseFloat P (get_field rawBody ''Rate'') = Inr rate" and
    "validate (new_Bill oid now name mobile (Some t) morning evening rate) = []"
    by (rule create_bill_accepted)
  then have "js_ge morning (Fin 0)" "js_ge evening (Fin 0)" "js_ge rate min_Rate"
    by (simp_all add: validate_Nil_iff new_Bill_def)
  with assms p show False
    using js_le_zero_below_min_Rate js_less_zero_not_ge by auto
qed

text \<open>
  A rate of 0.
\<close>

theorem create_rejects_low_numbers_witness:
  "parseFloat example_platform (get_field (asha_body(''Rate'' \<mapsto> JNum (Fin 0))) ''Rate'') =
     Inr (Fin 0) \<and> js_le (Fin 0) (Fin 0) \<and>
   create_bill example_platform ''65a1b2c3d4e5f60718293a4c'' 1704450000001
     (asha_body(''Rate'' \<mapsto> JNum (Fin 0))) [asha_bill] =
     (Response 400 (ErrorOf (ValidationError [''Rate''])), [asha_bill])"
proof -
  have h: "parseFloat example_platform
      (get_field (asha_body(''Rate'' \<mapsto> JNum (Fin 0))) ''Rate'') = Inr (Fin 0) \<and>
      js_le (Fin 0) (Fin 0)"
    by (simp add: get_field_def parseFloat_def js_le_def js_ge_def)
  have "create_bill example_platform ''65a1b2c3d4e5f60718293a4c'' 1704450000001
     (asha_body(''Rate'' \<mapsto> JNum (Fin 0))) [asha_bill] =
     (Response 400 (ErrorOf (ValidationError [''Rate''])), [asha_bill])"
    by (simp add: create_eval, simp add: validate_eval fl_0)
  with create_rejects_low_numbers [of example_platform
      "asha_body(''Rate'' \<mapsto> JNum (Fin 0))" "''65a1b2c3d4e5f60718293a4c''" 1704450000001
      "[asha_bill]"] h
  show ?thesis by simp
qed

subsection \<open>Errors leave the collection unchanged\<close>

text \<open>
  Claim C9. A create request answered with an error status (400 is the only one the
  handler sends) leaves the collection as it was, whether the handler's own check or
  the validation of the schema rejected it.
\<close>

theorem create_error_leaves_store:
  assumes "400 \<le> status (fst (create_bill P oid now rawBody st))"
  shows "status (fst (create_bill P oid now rawBody st)) = 400 \<and>
         snd (create_bill P oid now rawBody st) = st"
  using assms by (intro create_bill_rejected) simp

text \<open>
  An empty name, rejected by the handler's own check.
\<close>

theorem create_error_leaves_store_witness:
  "400 \<le> status (fst (create_bill example_platform ''65a1b2c3d4e5f60718293a4c'' 1704450000001
       (asha_body(''Name'' \<mapsto> JStr [])) [asha_bill])) \<and>
   snd (create_bill example_platform ''65a1b2c3d4e5f60718293a4c'' 1704450000001
       (asha_body(''Name'' \<mapsto> JStr [])) [asha_bill]) = [asha_bill]"
proof -
  have "create_bill example_platform ''65a1b2c3d4e5f60718293a4c'' 1704450000001
       (asha_body(''Name'' \<mapsto> JStr [])) [asha_bill] =
       (Response 400 (ErrorJson ''Missing or invalid required fields''), [asha_bill])"
    by (simp add: create_bill_def asha_body_def get_field_def example_platform_def new_Date_def
        parseFloat_def example_dateParse_2024)
  then have h: "400 \<le> status (fst (create_bill example_platform ''65a1b2c3d4e5f60718293a4c''
       1704450000001 (asha_body(''Name'' \<mapsto> JStr [])) [asha_bill]))"
    by simp
  from create_error_leaves_store [OF h] h show ?thesis by simp
qed

subsection \<open>Numeric prefixes\<close>

text \<open>
  Claim C10. When \<open>Morning\<close>, \<open>Evening\<close> or \<open>Rate\<close> is a string made of white space,
  a well-formed numeric literal and a rest that cannot lengthen the literal (digits
  followed by letters, as in \<^verbatim>\<open>2abc\<close> or \<^verbatim>\<open>2em\<close>), \<^verbatim>\<open>parseFloat\<close> returns the Number of
  the literal, which is not NaN, and the request is treated exactly as if the field
  were that Number, or the literal alone.
\<close>

theorem parseFloat_numeric_prefix:
  assumes "well_formed L" and "ends_literal L r" and "list_all is_space ws"
    and "k = ''Morning'' \<or> k = ''Evening'' \<or> k = ''Rate''"
  shows "parseFloat P (JStr (ws @ literal_text L @ r)) = Inr (literal_value L) \<and>
         \<not> isNaN (literal_value L) \<and>
         create_bill P oid now (rawBody(k \<mapsto> JStr (ws @ literal_text L @ r))) st =
           create_bill P oid now (rawBody(k \<mapsto> JNum (literal_value L))) st \<and>
         create_bill P oid now (rawBody(k \<mapsto> JStr (ws @ literal_text L @ r))) st =
           create_bill P oid now (rawBody(k \<mapsto> JStr (literal_text L))) st"
proof -
  have e: "parse_float (ws @ literal_text L @ r) = literal_value L"
    using assms(1,2,3) by (rule parse_float_text)
  have "ends_literal L []" by (cases L) simp_all
  with assms(1) have "parse_float ([] @ literal_text L @ []) = literal_value L"
    by (rule parse_float_text) simp
  then have e0: "parse_float (literal_text L) = literal_value L" by simp
  have n: "literal_value L \<noteq> NaN" by (rule literal_value_not_NaN)
  have pf: "parseFloat P (JStr (ws @ literal_text L @ r)) = Inr (literal_value L)"
    "parseFloat P (JStr (ws @ literal_text L @ r)) = parseFloat P (JNum (literal_value L))"
    "parseFloat P (JStr (ws @ literal_text L @ r)) = parseFloat P (JStr (literal_text L))"
    by (simp_all add: parseFloat_def e e0)
  have c1: "create_bill P oid now (rawBody(k \<mapsto> JStr (ws @ literal_text L @ r))) st =
        create_bill P oid now (rawBody(k \<mapsto> JNum (literal_value L))) st"
    using assms(4) by (intro create_bill_conversions) (auto simp: get_field_def pf(2))
  have c2: "create_bill P oid now (rawBody(k \<mapsto> JStr (ws @ literal_text L @ r))) st =
        create_bill P oid now (rawBody(k \<mapsto> JStr (literal_text L))) st"
    using assms(4) by (intro create_bill_conversions) (auto simp: get_field_def pf(3))
  show ?thesis using pf(1) n c1 c2 by (simp add: isNaN_def)
qed

text \<open>
  The example of the claim: a \<open>Morning\<close> of \<^verbatim>\<open>2abc\<close> is stored as 2, and so is a
  \<open>Morning\<close> of \<^verbatim>\<open>2em\<close>.
\<close>

theorem parseFloat_numeric_prefix_witness:
  "well_formed (DecimalLit NoSign ''2'' None None) \<and>
   ends_literal (DecimalLit NoSign ''2'' None None) ''abc'' \<and>
   ends_literal (DecimalLit NoSign ''2'' None None) ''em'' \<and>
   list_all is_space [] \<and>
   parseFloat example_platform (JStr ''2abc'') = Inr (Fin 2) \<and>
   parseFloat example_platform (JStr ''2em'') = Inr (Fin 2) \<and>
   create_bill example_platform ''65a1b2c3d4e5f60718293a4b'' 1704450000000
     (asha_body(''Morning'' \<mapsto> JStr ''2abc'')) [] =
     (Response 201 (BillJson asha_bill), [asha_bill]) \<and>
   create_bill example_platform ''65a1b2c3d4e5f60718293a4b'' 1704450000000
     (asha_body(''Morning'' \<mapsto> JStr ''2em'')) [] =
     (Response 201 (BillJson asha_bill), [asha_bill])"
proof -
  have w: "well_formed (DecimalLit NoSign ''2'' None None)"
    by (simp add: is_digit_def)
  have a: "ends_literal (DecimalLit NoSign ''2'' None None) ''abc''"
    by (simp add: is_digit_def)
  have b: "ends_literal (DecimalLit NoSign ''2'' None None) ''em''"
    by (simp add: is_digit_def)
  have s: "list_all is_space []" by simp
  have "create_bill example_platform ''65a1b2c3d4e5f60718293a4b'' 1704450000000
      (asha_body(''Morning'' \<mapsto> JNum (Fin 2))) [] =
    create_bill example_platform ''65a1b2c3d4e5f60718293a4b'' 1704450000000 asha_body []"
    by (rule create_bill_conversions) (simp_all add: get_field_def asha_body_def)
  then have c: "create_bill example_platform ''65a1b2c3d4e5f60718293a4b'' 1704450000000
      (asha_body(''Morning'' \<mapsto> JNum (Fin 2))) [] = (Response 201 (BillJson asha_bill), [asha_bill])"
    by (simp only: create_asha)
  from parseFloat_numeric_prefix [OF w a s, of "''Morning''" example_platform
      "''65a1b2c3d4e5f60718293a4b''" 1704450000000 asha_body "[]"]
    parseFloat_numeric_prefix [OF w b s, of "''Morning''" example_platform
      "''65a1b2c3d4e5f60718293a4b''" 1704450000000 asha_body "[]"]
    w a b c
  show ?thesis by (simp add: literal_value_2 del: literal_value.simps)
qed

section \<open>Properties of GET /api/bills and GET /api/bills/search\<close>

lemma sort_Date_desc_mset: "mset (sort_Date_desc bs) = mset bs"
  by (simp add: sort_Date_desc_def)

lemma sort_Date_desc_set: "set (sort_Date_desc bs) = set bs"
  by (simp add: sort_Date_desc_def)

lemma sort_Date_desc_sorted: "sorted_wrt (\<lambda>a b. Date b \<le> Date a) (sort_Date_desc bs)"
proof -
  have "sorted (map (\<lambda>b. - Date b) (sort_key (\<lambda>b. - Date b) bs))"
    by (rule sorted_sort_key)
  then show ?thesis
    by (simp add: sort_Date_desc_def sorted_map)
qed

lemma find_regex_subset: "find_regex P q st = Inr bs \<Longrightarrow> b \<in> set bs \<Longrightarrow> b \<in> set st"
  by (auto simp: find_regex_def split: option.splits)

lemma list_bills_subset:
  "list_bills P query st = Response 200 (BillsJson bs) \<Longrightarrow> set bs \<subseteq> set st"
  by (auto simp: list_bills_def sort_Date_desc_set split: option.splits sum.splits if_splits
           dest: find_regex_subset)

lemma search_bills_subset:
  "search_bills P query st = Response 200 (BillsJson bs) \<Longrightarrow> set bs \<subseteq> set st"
  by (auto simp: search_bills_def sort_Date_desc_set split: option.splits sum.splits if_splits
           dest: find_regex_subset)

subsection \<open>Listing without a query\<close>

text \<open>
  Claim C4. Without a query (the parameter absent or empty) the list operation answers
  with status 200 and all stored bills, each as often as it is stored, ordered by
  \<open>Date\<close> with the latest first.
\<close>

theorem list_without_query:
  "list_bills P None st = Response 200 (BillsJson (sort_Date_desc st)) \<and>
   list_bills P (Some []) st = Response 200 (BillsJson (sort_Date_desc st)) \<and>
   mset (sort_Date_desc st) = mset st \<and>
   sorted_wrt (\<lambda>a b. Date b \<le> Date a) (sort_Date_desc st)"
  by (simp add: list_bills_def sort_Date_desc_mset sort_Date_desc_sorted)

subsection \<open>The query is a pattern\<close>

text \<open>
  A query without metacharacters and without NUL is a pattern that matches exactly
  where the query occurs as a substring.
\<close>

lemma plain_char_not_special:
  "plain_char c \<Longrightarrow> c \<noteq> backslash \<and> c \<noteq> CHR ''.'' \<and> \<not> is_meta c"
  by (auto simp: plain_char_def is_meta_def)

lemma parse_pattern_plain: "list_all plain_char q \<Longrightarrow> parse_pattern q = Atoms (map Lit q)"
  by (induction q rule: parse_pattern.induct) (auto dest: plain_char_not_special)

lemma regex_compile_plain:
  assumes "list_all plain_char q"
  shows "regex_compile P q ci = Some (regex_search ci (map Lit q))"
proof -
  have "nul \<notin> set q" using assms by (auto simp: list_all_iff plain_char_def)
  then show ?thesis using assms by (simp add: regex_compile_def parse_pattern_plain)
qed

lemma regex_compile_nul: "nul \<in> set q \<Longrightarrow> regex_compile P q ci = None"
  by (simp add: regex_compile_def)

lemma match_here_Lit: "match_here False (map Lit q) s \<longleftrightarrow> prefix q s"
proof (induction q arbitrary: s)
  case Nil
  show ?case by simp
next
  case (Cons c q)
  show ?case by (cases s) (auto simp: Cons.IH)
qed

lemma match_here_Lit_caseless:
  "match_here True (map Lit q) s \<longleftrightarrow> prefix (map to_lower q) (map to_lower s)"
proof (induction q arbitrary: s)
  case Nil
  show ?case by simp
next
  case (Cons c q)
  show ?case by (cases s) (auto simp: Cons.IH)
qed

lemma regex_search_Lit: "regex_search False (map Lit q) s \<longleftrightarrow> sublist q s"
  by (induction s) (simp_all add: match_here_Lit sublist_Cons_right)

lemma regex_search_Lit_caseless:
  "regex_search True (map Lit q) s \<longleftrightarrow> sublist (map to_lower q) (map to_lower s)"
  by (induction s) (simp_all add: match_here_Lit_caseless sublist_Cons_right)

lemma find_regex_plain:
  assumes "list_all plain_char q"
  shows "find_regex P q st = Inr (filter (substring_filter q) st)"
proof -
  have "(\<lambda>b. regex_search True (map Lit q) (Name b) \<or> regex_search False (map Lit q) (Mobile b))
        = substring_filter q"
    by (rule ext) (simp add: substring_filter_def regex_search_Lit regex_search_Lit_caseless)
  then show ?thesis
    using assms by (simp add: find_regex_def regex_compile_plain)
qed

lemma find_regex_fails:
  assumes "regex_compile P q True = None \<or> regex_compile P q False = None"
  shows "find_regex P q st = Inl (RegexError q)"
  using assms by (auto simp: find_regex_def split: option.splits)

lemma plain_ash: "list_all plain_char ''ash''"
  by (simp add: plain_char_def is_meta_def backslash_def nul_def)

lemma plain_zzz: "list_all plain_char ''zzz''"
  by (simp add: plain_char_def is_meta_def backslash_def nul_def)

text \<open>
  Claim C3, amended. For a non-empty query in which no character is a metacharacter of
  regular expressions (the backslash and \<^verbatim>\<open>^ $ . [ | ( ) ? * + {\<close>) or NUL, the
  filtered list operation and the search operation answer with status 200 and exactly
  the bills whose \<open>Name\<close> contains the query as a substring up to the case of letters
  or whose \<open>Mobile\<close> contains the query as it is, latest date first; the answer is the
  empty list when no bill matches. A non-empty query that does not compile as a
  pattern, as every query that contains NUL, is answered with status 500 by both
  operations, whatever the collection holds.
\<close>

theorem query_substring_filter:
  assumes "q \<noteq> []"
  shows "(list_all plain_char q \<longrightarrow>
           list_bills P (Some q) st =
             Response 200 (BillsJson (sort_Date_desc (filter (substring_filter q) st))) \<and>
           search_bills P (Some q) st =
             Response 200 (BillsJson (sort_Date_desc (filter (substring_filter q) st))) \<and>
           set (sort_Date_desc (filter (substring_filter q) st)) =
             {b \<in> set st. substring_filter q b} \<and>
           sorted_wrt (\<lambda>a b. Date b \<le> Date a)
             (sort_Date_desc (filter (substring_filter q) st))) \<and>
         (regex_compile P q True = None \<or> regex_compile P q False = None \<longrightarrow>
           list_bills P (Some q) st = Response 500 (ErrorJson ''Failed to fetch bills'') \<and>
           search_bills P (Some q) st = Response 500 (ErrorJson ''Search failed'')) \<and>
         (nul \<in> set q \<longrightarrow>
           list_bills P (Some q) st = Response 500 (ErrorJson ''Failed to fetch bills'') \<and>
           search_bills P (Some q) st = Response 500 (ErrorJson ''Search failed''))"
proof (intro conjI impI)
  assume p: "list_all plain_char q"
  show "list_bills P (Some q) st =
      Response 200 (BillsJson (sort_Date_desc (filter (substring_filter q) st)))"
    using assms p by (simp add: list_bills_def find_regex_plain)
  show "search_bills P (Some q) st =
      Response 200 (BillsJson (sort_Date_desc (filter (substring_filter q) st)))"
    using assms p by (simp add: search_bills_def find_regex_plain)
  show "set (sort_Date_desc (filter (substring_filter q) st)) =
      {b \<in> set st. substring_filter q b}"
    by (simp add: sort_Date_desc_set)
  show "sorted_wrt (\<lambda>a b. Date b \<le> Date a) (sort_Date_desc (filter (substring_filter q) st))"
    by (rule sort_Date_desc_sorted)
next
  assume "regex_compile P q True = None \<or> regex_compile P q False = None"
  then have f: "find_regex P q st = Inl (RegexError q)" by (rule find_regex_fails)
  show "list_bills P (Some q) st = Response 500 (ErrorJson ''Failed to fetch bills'')"
    using assms by (simp add: list_bills_def f)
  show "search_bills P (Some q) st = Response 500 (ErrorJson ''Search failed'')"
    using assms by (simp add: search_bills_def f)
next
  assume "nul \<in> set q"
  then have "regex_compile P q True = None \<or> regex_compile P q False = None"
    by (simp add: regex_compile_nul)
  then have f: "find_regex P q st = Inl (RegexError q)" by (rule find_regex_fails)
  show "list_bills P (Some q) st = Response 500 (ErrorJson ''Failed to fetch bills'')"
    using assms by (simp add: list_bills_def f)
  show "search_bills P (Some q) st = Response 500 (ErrorJson ''Search failed'')"
    using assms by (simp add: search_bills_def f)
qed

text \<open>
  The query \<^verbatim>\<open>ash\<close> finds the bill of Asha; a lone backslash does not compile, and the
  query that is one NUL is refused: both are answered with status 500.
\<close>

theorem query_substring_filter_witness:
  "''ash'' \<noteq> [] \<and> list_all plain_char ''ash'' \<and>
   list_bills example_platform (Some ''ash'') [asha_bill] = Response 200 (BillsJson [asha_bill]) \<and>
   search_bills example_platform (Some ''ash'') [asha_bill] = Response 200 (BillsJson [asha_bill]) \<and>
   [backslash] \<noteq> [] \<and> regex_compile example_platform [backslash] True = None \<and>
   list_bills example_platform (Some [backslash]) [asha_bill] =
     Response 500 (ErrorJson ''Failed to fetch bills'') \<and>
   search_bills example_platform (Some [backslash]) [asha_bill] =
     Response 500 (ErrorJson ''Search failed'') \<and>
   [nul] \<noteq> [] \<and> nul \<in> set [nul] \<and>
   list_bills example_platform (Some [nul]) [asha_bill] =
     Response 500 (ErrorJson ''Failed to fetch bills'') \<and>
   search_bills example_platform (Some [nul]) [asha_bill] =
     Response 500 (ErrorJson ''Search failed'')"
proof -
  have f: "substring_filter ''ash'' asha_bill"
    by (simp add: substring_filter_def asha_bill_def to_lower_def sublist_Cons_right)
  have s: "sort_Date_desc [asha_bill] = [asha_bill]"
    by (simp add: sort_Date_desc_def)
  have b: "regex_compile example_platform [backslash] True = None"
    by (simp add: regex_compile_def backslash_def nul_def)
  from query_substring_filter [of "''ash''" example_platform "[asha_bill]"]
    query_substring_filter [of "[backslash]" example_platform "[asha_bill]"]
    query_substring_filter [of "[nul]" example_platform "[asha_bill]"]
    plain_ash f s b
  show ?thesis by simp
qed

text \<open>
  Claim C3 as stated fails: the query is a regular expression. The query \<^verbatim>\<open>.\<close> finds
  the bill of Asha, whose name and mobile number contain no dot; and a query that is
  not a valid pattern, such as a lone backslash, is answered with an error (status 500)
  although no bill matches.
\<close>

theorem query_is_a_pattern:
  "list_bills example_platform (Some ''.'') [asha_bill] = Response 200 (BillsJson [asha_bill]) \<and>
   search_bills example_platform (Some ''.'') [asha_bill] = Response 200 (BillsJson [asha_bill]) \<and>
   \<not> sublist (map to_lower ''.'') (map to_lower (Name asha_bill)) \<and>
   \<not> sublist ''.'' (Mobile asha_bill) \<and>
   list_bills example_platform (Some [backslash]) [] =
     Response 500 (ErrorJson ''Failed to fetch bills'')"
  by (simp add: list_bills_def search_bills_def find_regex_def regex_compile_def
        sort_Date_desc_def asha_bill_def to_lower_def sublist_Cons_right backslash_def
        nul_def is_meta_def)

subsection \<open>The search operation and its query parameter\<close>

text \<open>
  Claim C8, amended. The search operation answers a request whose query parameter is
  absent or empty with status 400; a request with a non-empty query that compiles as a
  pattern and matches no bill with status 200 and the empty list; and a request with a
  non-empty query that does not compile with status 500.
\<close>

theorem search_query_outcomes:
  "search_bills P None st = Response 400 (ErrorJson ''Search query required'') \<and>
   search_bills P (Some []) st = Response 400 (ErrorJson ''Search query required'') \<and>
   (q \<noteq> [] \<and> regex_compile P q True = Some name_matches \<and>
    regex_compile P q False = Some mobile_matches \<and>
    (\<forall>b\<in>set st. \<not> name_matches (Name b) \<and> \<not> mobile_matches (Mobile b)) \<longrightarrow>
    search_bills P (Some q) st = Response 200 (BillsJson [])) \<and>
   (q \<noteq> [] \<and> (regex_compile P q True = None \<or> regex_compile P q False = None) \<longrightarrow>
    search_bills P (Some q) st = Response 500 (ErrorJson ''Search failed''))"
proof -
  have none: "filter (\<lambda>b. name_matches (Name b) \<or> mobile_matches (Mobile b)) st = []"
    if "\<forall>b\<in>set st. \<not> name_matches (Name b) \<and> \<not> mobile_matches (Mobile b)"
    using that by (simp add: filter_empty_conv)
  show ?thesis
    by (auto simp: search_bills_def find_regex_def sort_Date_desc_def none
             split: option.splits)
qed

text \<open>
  The query \<^verbatim>\<open>zzz\<close> matches no bill.
\<close>

theorem search_query_outcomes_witness:
  "''zzz'' \<noteq> [] \<and>
   regex_compile example_platform ''zzz'' True = Some (regex_search True (map Lit ''zzz'')) \<and>
   regex_compile example_platform ''zzz'' False = Some (regex_search False (map Lit ''zzz'')) \<and>
   \<not> regex_search True (map Lit ''zzz'') (Name asha_bill) \<and>
   \<not> regex_search False (map Lit ''zzz'') (Mobile asha_bill) \<and>
   search_bills example_platform (Some ''zzz'') [asha_bill] = Response 200 (BillsJson [])"
proof -
  have c: "regex_compile example_platform ''zzz'' True = Some (regex_search True (map Lit ''zzz''))"
    "regex_compile example_platform ''zzz'' False = Some (regex_search False (map Lit ''zzz''))"
    using plain_zzz by (simp_all add: regex_compile_plain)
  have n: "\<not> regex_search True (map Lit ''zzz'') (Name asha_bill)"
    "\<not> regex_search False (map Lit ''zzz'') (Mobile asha_bill)"
    by (simp_all add: asha_bill_def to_lower_def)
  from search_query_outcomes [of example_platform "[asha_bill]" "''zzz''"
      "regex_search True (map Lit ''zzz'')" "regex_search False (map Lit ''zzz'')"] c n
  show ?thesis by simp
qed

text \<open>
  Claim C8 as stated fails: a request that supplies the empty query is answered with
  status 400 although no bill matches it (the collection is empty), and one that
  supplies a lone backslash with status 500.
\<close>

theorem search_empty_or_invalid_query:
  "search_bills example_platform (Some []) [] =
     Response 400 (ErrorJson ''Search query required'') \<and>
   search_bills example_platform (Some [backslash]) [] =
     Response 500 (ErrorJson ''Search failed'')"
  by (simp add: search_bills_def find_regex_def regex_compile_def backslash_def nul_def)

section \<open>Properties of DELETE /api/bills/:id\<close>

lemma remove_ident_absent: "i \<notin> set (map ident st) \<Longrightarrow> remove_ident i st = st"
  by (induction st) auto

lemma remove_ident_subset: "set (remove_ident i st) \<subseteq> set st"
  by (induction st) auto

lemma remove_ident_keeps: "b \<in> set st \<Longrightarrow> ident b \<noteq> i \<Longrightarrow> b \<in> set (remove_ident i st)"
  by (induction st) auto

lemma remove_ident_gone:
  "distinct (map ident st) \<Longrightarrow> i \<notin> set (map ident (remove_ident i st))"
  by (induction st) (use remove_ident_subset in \<open>auto\<close>)

lemma remove_ident_distinct:
  "distinct (map ident st) \<Longrightarrow> distinct (map ident (remove_ident i st))"
  by (induction st) (use remove_ident_subset in \<open>auto\<close>)

lemma find_ident_None: "find (\<lambda>b. ident b = i) st = None \<longleftrightarrow> i \<notin> set (map ident st)"
  by (auto simp: find_None_iff)

lemma delete_bill_cast_fails:
  "castObjectId P id_param = None \<Longrightarrow>
   delete_bill P id_param st = (Response 500 (ErrorOf (CastError id_param)), st)"
  by (simp add: delete_bill_def findByIdAndDelete_def)

lemma delete_bill_not_found:
  "castObjectId P id_param = Some i \<Longrightarrow> i \<notin> set (map ident st) \<Longrightarrow>
   delete_bill P id_param st = (Response 404 (ErrorJson ''Bill not found''), st)"
  using find_ident_None [of i st]
  by (simp add: delete_bill_def findByIdAndDelete_def remove_ident_absent)

lemma delete_bill_found:
  "castObjectId P id_param = Some i \<Longrightarrow> i \<in> set (map ident st) \<Longrightarrow>
   delete_bill P id_param st =
     (Response 200 (MessageJson ''Bill deleted successfully''), remove_ident i st)"
  using find_ident_None [of i st]
  by (auto simp: delete_bill_def findByIdAndDelete_def split: option.splits)

lemma delete_bill_distinct:
  assumes "distinct (map ident st)"
  shows "distinct (map ident (snd (delete_bill P id_param st)))"
  using assms
  by (auto simp: delete_bill_def findByIdAndDelete_def remove_ident_distinct
           split: option.splits)

text \<open>
  Claim C5, amended. In a collection with pairwise distinct identifiers: when the path
  parameter casts to an identifier that no stored bill has, the delete operation
  answers with status 404 and changes nothing; when it casts to the identifier of a
  stored bill, the operation answers with status 200, removes that bill and no other,
  and no later list or search result contains a bill with that identifier; when the
  path parameter does not cast to an identifier, the operation answers with status 500
  and changes nothing.
\<close>

theorem delete_bill_outcomes:
  assumes "distinct (map ident st)"
  shows "case castObjectId P id_param of
      None \<Rightarrow> delete_bill P id_param st = (Response 500 (ErrorOf (CastError id_param)), st)
    | Some i \<Rightarrow>
        if i \<in> set (map ident st)
        then \<exists>st'. delete_bill P id_param st =
                 (Response 200 (MessageJson ''Bill deleted successfully''), st') \<and>
               i \<notin> set (map ident st') \<and>
               set st' \<subseteq> set st \<and>
               (\<forall>b\<in>set st. ident b \<noteq> i \<longrightarrow> b \<in> set st') \<and>
               (\<forall>query bs.
                  list_bills P query st' = Response 200 (BillsJson bs) \<or>
                  search_bills P query st' = Response 200 (BillsJson bs) \<longrightarrow>
                  i \<notin> set (map ident bs))
        else delete_bill P id_param st = (Response 404 (ErrorJson ''Bill not found''), st)"
proof (cases "castObjectId P id_param")
  case None
  then show ?thesis by (simp add: delete_bill_cast_fails)
next
  case (Some i)
  show ?thesis
  proof (cases "i \<in> set (map ident st)")
    case False
    with Some show ?thesis by (simp add: delete_bill_not_found)
  next
    case True
    let ?st' = "remove_ident i st"
    have gone: "i \<notin> set (map ident ?st')"
      using assms by (rule remove_ident_gone)
    have later: "i \<notin> set (map ident bs)"
      if "list_bills P query ?st' = Response 200 (BillsJson bs) \<or>
          search_bills P query ?st' = Response 200 (BillsJson bs)" for query bs
    proof -
      have "set bs \<subseteq> set ?st'"
        using that list_bills_subset search_bills_subset by blast
      then show ?thesis using gone by auto
    qed
    have "delete_bill P id_param st =
            (Response 200 (MessageJson ''Bill deleted successfully''), ?st') \<and>
          i \<notin> set (map ident ?st') \<and> set ?st' \<subseteq> set st \<and>
          (\<forall>b\<in>set st. ident b \<noteq> i \<longrightarrow> b \<in> set ?st') \<and>
          (\<forall>query bs.
             list_bills P query ?st' = Response 200 (BillsJson bs) \<or>
             search_bills P query ?st' = Response 200 (BillsJson bs) \<longrightarrow>
             i \<notin> set (map ident bs))"
      using Some True gone later
      by (simp add: delete_bill_found remove_ident_subset remove_ident_keeps)
    then have "\<exists>st'. delete_bill P id_param st =
            (Response 200 (MessageJson ''Bill deleted successfully''), st') \<and>
          i \<notin> set (map ident st') \<and> set st' \<subseteq> set st \<and>
          (\<forall>b\<in>set st. ident b \<noteq> i \<longrightarrow> b \<in> set st') \<and>
          (\<forall>query bs.
             list_bills P query st' = Response 200 (BillsJson bs) \<or>
             search_bills P query st' = Response 200 (BillsJson bs) \<longrightarrow>
             i \<notin> set (map ident bs))"
      by (rule exI)
    with Some True show ?thesis by (simp only: option.case if_True)
  qed
qed

lemma cast_asha_id:
  "example_castObjectId ''65a1b2c3d4e5f60718293a4b'' = Some ''65a1b2c3d4e5f60718293a4b''"
  by (simp add: example_castObjectId_def is_hex_def to_lower_def)

text \<open>
  Deleting the bill of Asha from the collection that holds it.
\<close>

theorem delete_bill_outcomes_witness:
  "distinct (map ident [asha_bill]) \<and>
   castObjectId example_platform ''65a1b2c3d4e5f60718293a4b'' = Some ''65a1b2c3d4e5f60718293a4b'' \<and>
   ''65a1b2c3d4e5f60718293a4b'' \<in> set (map ident [asha_bill]) \<and>
   delete_bill example_platform ''65a1b2c3d4e5f60718293a4b'' [asha_bill] =
     (Response 200 (MessageJson ''Bill deleted successfully''), [])"
proof -
  have d: "distinct (map ident [asha_bill])" by simp
  have c: "castObjectId example_platform ''65a1b2c3d4e5f60718293a4b'' =
      Some ''65a1b2c3d4e5f60718293a4b''"
    by (simp add: example_platform_def cast_asha_id)
  have m: "''65a1b2c3d4e5f60718293a4b'' \<in> set (map ident [asha_bill])"
    by (simp add: asha_bill_def)
  from delete_bill_outcomes [OF d, of example_platform "''65a1b2c3d4e5f60718293a4b''"]
  obtain st' where
    "delete_bill example_platform ''65a1b2c3d4e5f60718293a4b'' [asha_bill] =
       (Response 200 (MessageJson ''Bill deleted successfully''), st')"
    "''65a1b2c3d4e5f60718293a4b'' \<notin> set (map ident st')" "set st' \<subseteq> set [asha_bill]"
    unfolding c using m by auto
  moreover from this have "st' = []"
    by (cases st') (auto simp: asha_bill_def)
  ultimately show ?thesis using d c m by simp
qed

text \<open>
  Claim C5 as stated fails: the path parameter \<^verbatim>\<open>abc\<close> is the identifier of no
  stored bill, and the answer is status 500, not 404.
\<close>

theorem delete_malformed_id:
  "delete_bill example_platform ''abc'' [] = (Response 500 (ErrorOf (CastError ''abc'')), [])"
  by (simp add: delete_bill_def findByIdAndDelete_def example_platform_def
        example_castObjectId_def)

end
